theory Spec2Isabelle
  imports Main "HOL-Library.Extended_Nat" "HOL-Library.Multiset"
begin

chapter \<open>The model\<close>

section \<open>Python values\<close>

text \<open>
  A Python \<open>str\<close> is modelled as an Isabelle \<open>string\<close>; a \<open>char\<close> stands for the code
  point of the same number, so the model covers the texts whose code points are below 256.
  The character classes below are Python's on that range. An exception is a value of
  \<open>py_error\<close>; a computation that may raise returns \<open>py_error + 'a\<close>, and one that
  also changes the file system returns the file system it leaves behind together with
  the exception, if any.
\<close>

datatype py_error =
    ValueError | IndexError | KeyError | TypeError
  | FileExistsError | FileNotFoundError | NotADirectoryError | IsADirectoryError
  | ClientError | JSONDecodeError

text \<open>\<open>c.isspace()\<close>: TAB to CR, FS to US, space, NEL and NBSP.\<close>

definition str_isspace :: "char \<Rightarrow> bool" where
  "str_isspace c =
     (let n = (of_char c :: nat)
      in (9 \<le> n \<and> n \<le> 13) \<or> (28 \<le> n \<and> n \<le> 32) \<or> n = 133 \<or> n = 160)"

text \<open>\<open>s.strip()\<close>: whitespace removed at both ends.\<close>

definition str_strip :: "string \<Rightarrow> string" where
  "str_strip s = rev (dropWhile str_isspace (rev (dropWhile str_isspace s)))"

text \<open>\<open>s.split(c)\<close> for a separator of one character; the result is never empty.\<close>

fun str_split :: "char \<Rightarrow> string \<Rightarrow> string list" where
  "str_split c [] = [[]]"
| "str_split c (x # xs) =
     (if x = c then [] # str_split c xs
      else (case str_split c xs of [] \<Rightarrow> [[x]] | w # ws \<Rightarrow> (x # w) # ws))"

text \<open>\<open>s.count(c)\<close> for a pattern of one character.\<close>

definition str_count :: "string \<Rightarrow> char \<Rightarrow> nat" where
  "str_count s c = length (filter (\<lambda>x. x = c) s)"

text \<open>\<open>sep.join(xs)\<close>.\<close>

fun str_join :: "string \<Rightarrow> string list \<Rightarrow> string" where
  "str_join sep [] = []"
| "str_join sep [x] = x"
| "str_join sep (x # y # ys) = x @ sep @ str_join sep (y # ys)"

text \<open>
  \<open>s.isdigit()\<close> holds for a non-empty text of digit characters. Below 256 these are the
  decimal digits \<open>0\<close> to \<open>9\<close> and the superscript digits (code points B2, B3 and B9).
  \<open>int(s)\<close> is only ever called on such a text; it accepts the decimal digits, raises
  \<open>ValueError\<close> on a superscript digit, and raises \<open>ValueError\<close> on a text of more
  than 4300 digits, leading zeros counted (the interpreter's limit on the conversion, at
  its default).
\<close>

definition decimal_char :: "char \<Rightarrow> bool" where
  "decimal_char c = (48 \<le> (of_char c :: nat) \<and> (of_char c :: nat) \<le> 57)"

definition digit_char :: "char \<Rightarrow> bool" where
  "digit_char c = (decimal_char c \<or> c = CHR 0xB2 \<or> c = CHR 0xB3 \<or> c = CHR 0xB9)"

definition str_isdigit :: "string \<Rightarrow> bool" where
  "str_isdigit s = (s \<noteq> [] \<and> list_all digit_char s)"

definition max_str_digits :: nat where
  "max_str_digits = 4300"

definition int_of_digits :: "string \<Rightarrow> py_error + nat" where
  "int_of_digits s =
     (if s \<noteq> [] \<and> list_all decimal_char s \<and> length s \<le> max_str_digits
      then Inr (foldl (\<lambda>n c. 10 * n + (of_char c - 48)) 0 s)
      else Inl ValueError)"

section \<open>Slug extractor\<close>

text \<open>
  \<^verbatim>\<open>match = re.search(r"problems/([^/]+)", url)\<close>
  \<^verbatim>\<open>return match.group(1) if match else None\<close>

  \<open>slug_at s\<close> is the attempt to match the pattern at the start of \<open>s\<close>: the literal
  \<open>problems/\<close>, then the longest run of characters other than \<open>/\<close>, which must not be
  empty. \<open>re_search\<close> tries the positions of the text from left to right and returns the
  group of the first match.
\<close>

definition marker :: string where
  "marker = ''problems/''"

definition slug_at :: "string \<Rightarrow> string option" where
  "slug_at s =
     (if take (length marker) s = marker
      then (let run = takeWhile (\<lambda>c. c \<noteq> CHR ''/'') (drop (length marker) s)
            in if run = [] then None else Some run)
      else None)"

fun re_search :: "string \<Rightarrow> string option" where
  "re_search [] = None"
| "re_search (c # cs) =
     (case slug_at (c # cs) of Some run \<Rightarrow> Some run | None \<Rightarrow> re_search cs)"

definition extract_question_slug :: "string \<Rightarrow> string option" where
  "extract_question_slug url = re_search url"

text \<open>No match of the pattern starts at a position below \<open>n\<close>.\<close>

definition no_match_before :: "string \<Rightarrow> nat \<Rightarrow> bool" where
  "no_match_before url n = list_all (\<lambda>i. slug_at (drop i url) = None) [0..<n]"

section \<open>File system\<close>

text \<open>
  The file system is a finite map from path texts to nodes. Paths are compared as texts:
  the model is exact for normalised paths (no empty, \<open>.\<close> or \<open>..\<close> component, no
  trailing separator); links and permissions are left out. The empty directory name is
  the working directory and a name of separators only is the root; both always exist.
\<close>

datatype node = Dir | File string

type_synonym filesystem = "string \<rightharpoonup> node"

text \<open>\<open>os.path.exists(p)\<close>.\<close>

definition path_exists :: "filesystem \<Rightarrow> string \<Rightarrow> bool" where
  "path_exists fs p = (fs p \<noteq> None)"

text \<open>\<open>os.path.join(a, b)\<close> (POSIX).\<close>

definition path_join :: "string \<Rightarrow> string \<Rightarrow> string" where
  "path_join a b =
     (if b \<noteq> [] \<and> hd b = CHR ''/'' then b
      else if a = [] \<or> last a = CHR ''/'' then a @ b
      else a @ ''/'' @ b)"

text \<open>\<open>os.path.dirname(p)\<close> (POSIX).\<close>

definition dirname :: "string \<Rightarrow> string" where
  "dirname p =
     (let head = rev (dropWhile (\<lambda>c. c \<noteq> CHR ''/'') (rev p))
      in if head \<noteq> [] \<and> \<not> list_all (\<lambda>c. c = CHR ''/'') head
         then rev (dropWhile (\<lambda>c. c = CHR ''/'') (rev head))
         else head)"

text \<open>Why a path cannot be opened or created: its directory is missing or is a file.\<close>

definition parent_error :: "filesystem \<Rightarrow> string \<Rightarrow> py_error option" where
  "parent_error fs p =
     (let d = dirname p
      in if list_all (\<lambda>c. c = CHR ''/'') d then None
         else (case fs d of
                 None \<Rightarrow> Some FileNotFoundError
               | Some Dir \<Rightarrow> None
               | Some (File _) \<Rightarrow> Some NotADirectoryError))"

text \<open>\<open>with open(p, "w") as f: f.write(text)\<close>: the file is created or replaced.\<close>

definition open_write :: "filesystem \<Rightarrow> string \<Rightarrow> string \<Rightarrow> filesystem \<times> py_error option" where
  "open_write fs p text =
     (case parent_error fs p of
        Some e \<Rightarrow> (fs, Some e)
      | None \<Rightarrow>
          (case fs p of
             Some Dir \<Rightarrow> (fs, Some IsADirectoryError)
           | _ \<Rightarrow> (fs(p \<mapsto> File text), None)))"

text \<open>\<open>open(p, "r")\<close> and reading the whole text.\<close>

definition open_read :: "filesystem \<Rightarrow> string \<Rightarrow> py_error + string" where
  "open_read fs p =
     (case parent_error fs p of
        Some e \<Rightarrow> Inl e
      | None \<Rightarrow>
          (case fs p of
             None \<Rightarrow> Inl FileNotFoundError
           | Some Dir \<Rightarrow> Inl IsADirectoryError
           | Some (File text) \<Rightarrow> Inr text))"

text \<open>
  \<open>os.makedirs(p, exist_ok=True)\<close>: the directory and every missing ancestor are
  created, outermost first; an existing directory is accepted; a file in the way raises
  (\<open>NotADirectoryError\<close> at an ancestor, \<open>FileExistsError\<close> at the path itself), which
  leaves the ancestors created so far.
\<close>

definition path_prefixes :: "string \<Rightarrow> string list" where
  "path_prefixes p =
     map (\<lambda>i. take i p) (filter (\<lambda>i. p ! i = CHR ''/'') [1..<length p]) @ [p]"

fun ensure_dirs :: "filesystem \<Rightarrow> string list \<Rightarrow> filesystem \<times> py_error option" where
  "ensure_dirs fs [] = (fs, None)"
| "ensure_dirs fs (d # ds) =
     (case fs d of
        Some Dir \<Rightarrow> ensure_dirs fs ds
      | Some (File _) \<Rightarrow> (fs, Some (if ds = [] then FileExistsError else NotADirectoryError))
      | None \<Rightarrow> ensure_dirs (fs(d \<mapsto> Dir)) ds)"

definition makedirs :: "filesystem \<Rightarrow> string \<Rightarrow> filesystem \<times> py_error option" where
  "makedirs fs p = ensure_dirs fs (path_prefixes p)"

section \<open>Directory scaffolder\<close>

text \<open>The fields of \<open>__init__\<close> that the functions read.\<close>

definition base_directory :: string where
  "base_directory = ''problemset''"

definition root_readme :: string where
  "root_readme = ''README.md''"

text \<open>
  \<open>generate_solution_metadata\<close>; \<open>now\<close> is the text that
  \<^verbatim>\<open>datetime.now().strftime("%d/%m/%Y %H:%M:%S IST")\<close> returns at the call.
\<close>

definition generate_solution_metadata :: "string \<Rightarrow> string \<Rightarrow> string" where
  "generate_solution_metadata now question_title =
     ''# Author: Abhinav Singh <abhinavsingh@duck.com>\<newline># Question: '' @ question_title @
     ''\<newline># Solved On: '' @ now @ ''\<newline>''"

text \<open>
  \<open>setup_problem_directory\<close>: the folder is made, then each of the two files is written
  only when nothing exists at its path. An exception ends the call where it is raised.
\<close>

definition setup_problem_directory ::
  "string \<Rightarrow> filesystem \<Rightarrow> string \<Rightarrow> string \<Rightarrow> string \<Rightarrow> filesystem \<times> py_error option" where
  "setup_problem_directory now fs question_id question_slug question_title =
     (let folder_name = question_id @ ''.'' @ question_slug;
          folder_path = path_join base_directory folder_name
      in case makedirs fs folder_path of
           (fs1, Some e) \<Rightarrow> (fs1, Some e)
         | (fs1, None) \<Rightarrow>
             (let readme_path = path_join folder_path ''README.md'';
                  solution_path = path_join folder_path (question_slug @ ''.py'')
              in case (if \<not> path_exists fs1 readme_path
                       then open_write fs1 readme_path []
                       else (fs1, None)) of
                   (fs2, Some e) \<Rightarrow> (fs2, Some e)
                 | (fs2, None) \<Rightarrow>
                     (if \<not> path_exists fs2 solution_path
                      then open_write fs2 solution_path
                             (generate_solution_metadata now question_title)
                      else (fs2, None))))"

section \<open>Index updater\<close>

text \<open>
  The record that \<open>fetch_problem_data\<close> returns. \<open>'v\<close> is the type of the three values
  taken from the response: JSON values as fetched, texts once formatted into a row.
\<close>

record 'v question_data =
  question_id :: 'v
  question_title :: 'v
  question_slug :: string
  difficulty :: 'v
  topic_tags :: string

text \<open>
  Reading in text mode translates CR LF and CR to LF; \<open>readlines\<close> cuts the text
  after every LF.
\<close>

fun universal_newlines :: "string \<Rightarrow> string" where
  "universal_newlines [] = []"
| "universal_newlines [c] = [if c = CHR 0x0D then CHR 0x0A else c]"
| "universal_newlines (c # d # cs) =
     (if c = CHR 0x0D \<and> d = CHR 0x0A then CHR 0x0A # universal_newlines cs
      else if c = CHR 0x0D then CHR 0x0A # universal_newlines (d # cs)
      else c # universal_newlines (d # cs))"

fun readlines :: "string \<Rightarrow> string list" where
  "readlines [] = []"
| "readlines (c # cs) =
     (if c = CHR 0x0A then [c] # readlines cs
      else (case readlines cs of [] \<Rightarrow> [[c]] | l # ls \<Rightarrow> (c # l) # ls))"

text \<open>\<^verbatim>\<open>[line.strip() for line in f.readlines() if line.strip()]\<close>\<close>

definition read_lines :: "string \<Rightarrow> string list" where
  "read_lines text =
     map str_strip
       (filter (\<lambda>line. str_strip line \<noteq> []) (readlines (universal_newlines text)))"

text \<open>
  A line that survives writing and reading back: not empty, no whitespace at either end,
  no line break inside. The lines that \<open>read_lines\<close> returns are of this kind.
\<close>

definition clean_line :: "string \<Rightarrow> bool" where
  "clean_line l =
     (l \<noteq> [] \<and> \<not> str_isspace (hd l) \<and> \<not> str_isspace (last l) \<and>
      CHR 0x0A \<notin> set l \<and> CHR 0x0D \<notin> set l)"

text \<open>The text written when the index document does not exist.\<close>

definition header_text :: string where
  "header_text =
     ''# Leetcode\<newline>\<newline>### Leetcode Problem Index\<newline>\<newline>'' @
     ''| # | Title | Solution | Tags | Difficulty |\<newline>'' @
     ''|:----:|:--------:|:--------:|:-------:|:----------:|\<newline>''"

definition new_entry :: "string question_data \<Rightarrow> string \<Rightarrow> string" where
  "new_entry question_data url =
     (let folder_name = question_id question_data @ ''.'' @ question_slug question_data;
          solution_path =
            ''problemset/'' @ folder_name @ ''/'' @ question_slug question_data @ ''.py''
      in ''| '' @ question_id question_data @ '' | ['' @ question_title question_data @
         '']('' @ url @ '') | [Python]('' @ solution_path @ '') | '' @
         topic_tags question_data @ '' | '' @ difficulty question_data @ '' |'')"

text \<open>
  The sort key
  \<^verbatim>\<open>int(x.split("|")[1].strip()) if x.split("|")[1].strip().isdigit() else float("inf")\<close>.
\<close>

definition entry_key :: "string \<Rightarrow> py_error + enat" where
  "entry_key x =
     (let parts = str_split CHR ''|'' x
      in if length parts \<le> 1 then Inl IndexError
         else if str_isdigit (str_strip (parts ! 1))
              then (case int_of_digits (str_strip (parts ! 1)) of
                      Inl e \<Rightarrow> Inl e
                    | Inr n \<Rightarrow> Inr (enat n))
              else Inr \<infinity>)"

text \<open>
  \<open>entries.sort(key=...)\<close>: the keys of all elements are computed first, in order, and
  the first exception ends the sort; then the elements are sorted by key, equal keys
  keeping their order.
\<close>

fun keyed :: "string list \<Rightarrow> py_error + (enat \<times> string) list" where
  "keyed [] = Inr []"
| "keyed (x # xs) =
     (case entry_key x of
        Inl e \<Rightarrow> Inl e
      | Inr k \<Rightarrow> (case keyed xs of Inl e \<Rightarrow> Inl e | Inr ks \<Rightarrow> Inr ((k, x) # ks)))"

definition list_sort :: "string list \<Rightarrow> py_error + string list" where
  "list_sort xs =
     (case keyed xs of Inl e \<Rightarrow> Inl e | Inr ks \<Rightarrow> Inr (map snd (sort_key fst ks)))"

text \<open>
  The key of a row as a total function, to state the order of the entries: the number in
  the id column, or \<open>\<infinity>\<close>, which is above every number.
\<close>

definition key_of :: "string \<Rightarrow> enat" where
  "key_of x = (case entry_key x of Inl e \<Rightarrow> \<infinity> | Inr k \<Rightarrow> k)"

text \<open>Lines 119 to 120: the line list after the new row has been appended, or not.\<close>

definition with_entry :: "string list \<Rightarrow> string \<Rightarrow> string list" where
  "with_entry lines entry = (if entry \<notin> set lines then lines @ [entry] else lines)"

text \<open>Lines 122 to 131: the header, and the entries filtered and sorted.\<close>

definition header_of :: "string list \<Rightarrow> string list" where
  "header_of lines = take 4 lines"

definition entries_of :: "string list \<Rightarrow> py_error + string list" where
  "entries_of lines =
     list_sort (filter (\<lambda>line. 5 \<le> str_count line CHR ''|'') (drop 4 lines))"

text \<open>The text of line 134.\<close>

definition document_text :: "string list \<Rightarrow> string" where
  "document_text lines = str_join ''\<newline>'' lines @ ''\<newline>''"

text \<open>
  What lines 114 to 134 make of the text read: the text written, or the exception of the
  sort. It is \<open>update_main_readme\<close> without the file system, for use in the proofs.
\<close>

definition rewritten :: "string \<Rightarrow> string question_data \<Rightarrow> string \<Rightarrow> py_error + string" where
  "rewritten text question_data url =
     (let lines = with_entry (read_lines text) (new_entry question_data url)
      in case entries_of lines of
           Inl e \<Rightarrow> Inl e
         | Inr entries \<Rightarrow> Inr (document_text (header_of lines @ entries)))"

definition update_main_readme ::
  "filesystem \<Rightarrow> string question_data \<Rightarrow> string \<Rightarrow> filesystem \<times> py_error option" where
  "update_main_readme fs question_data url =
     (case (if \<not> path_exists fs root_readme
            then open_write fs root_readme header_text
            else (fs, None)) of
        (fs1, Some e) \<Rightarrow> (fs1, Some e)
      | (fs1, None) \<Rightarrow>
          (case open_read fs1 root_readme of
             Inl e \<Rightarrow> (fs1, Some e)
           | Inr text \<Rightarrow>
               (let lines = with_entry (read_lines text) (new_entry question_data url)
                in case entries_of lines of
                     Inl e \<Rightarrow> (fs1, Some e)
                   | Inr entries \<Rightarrow>
                       open_write fs1 root_readme (document_text (header_of lines @ entries)))))"

section \<open>Metadata fetcher\<close>

text \<open>
  A JSON value as \<open>response.json()\<close> returns it: an object is a \<open>dict\<close>, given by its
  items (keys distinct, looked up with \<open>map_of\<close>); numbers are integers.
\<close>

datatype json =
    JNull | JBool bool | JNum int | JStr string
  | JArr "json list" | JObj "(string \<times> json) list"

text \<open>Truth value of a JSON value, as \<open>not v\<close> tests it.\<close>

fun truthy :: "json \<Rightarrow> bool" where
  "truthy JNull = False"
| "truthy (JBool b) = b"
| "truthy (JNum n) = (n \<noteq> 0)"
| "truthy (JStr s) = (s \<noteq> [])"
| "truthy (JArr xs) = (xs \<noteq> [])"
| "truthy (JObj kvs) = (kvs \<noteq> [])"

text \<open>
  \<open>key in v\<close>: a key of a dict, an element of a list, a part of a text; any other value
  is not a container.
\<close>

fun contains :: "string \<Rightarrow> json \<Rightarrow> py_error + bool" where
  "contains key (JObj kvs) = Inr (key \<in> set (map fst kvs))"
| "contains key (JArr xs) = Inr (JStr key \<in> set xs)"
| "contains key (JStr s) =
     Inr (list_ex (\<lambda>i. take (length key) (drop i s) = key) [0..<Suc (length s)])"
| "contains key v = Inl TypeError"

text \<open>\<open>v[key]\<close> for a text \<open>key\<close>: only a dict can be indexed by a text.\<close>

fun getitem :: "json \<Rightarrow> string \<Rightarrow> py_error + json" where
  "getitem (JObj kvs) key = (case map_of kvs key of None \<Rightarrow> Inl KeyError | Some v \<Rightarrow> Inr v)"
| "getitem v key = Inl TypeError"

text \<open>\<open>for tag in v\<close>: the elements of a list, the keys of a dict, the characters of a text.\<close>

fun elements :: "json \<Rightarrow> py_error + json list" where
  "elements (JArr xs) = Inr xs"
| "elements (JObj kvs) = Inr (map (\<lambda>kv. JStr (fst kv)) kvs)"
| "elements (JStr s) = Inr (map (\<lambda>c. JStr [c]) s)"
| "elements v = Inl TypeError"

text \<open>
  \<open>", ".join(tag["name"] for tag in tags)\<close>: \<open>join\<close> first runs the generator to its
  end, so the first tag without a \<open>name\<close> raises its own exception; only then does it
  look at the items collected, every one of which must be a text.
\<close>

fun tag_values :: "json list \<Rightarrow> py_error + json list" where
  "tag_values [] = Inr []"
| "tag_values (tag # tags) =
     (case getitem tag ''name'' of
        Inl e \<Rightarrow> Inl e
      | Inr v \<Rightarrow> (case tag_values tags of Inl e \<Rightarrow> Inl e | Inr vs \<Rightarrow> Inr (v # vs)))"

fun texts :: "json list \<Rightarrow> py_error + string list" where
  "texts [] = Inr []"
| "texts (JStr name # vs) =
     (case texts vs of Inl e \<Rightarrow> Inl e | Inr names \<Rightarrow> Inr (name # names))"
| "texts (v # vs) = Inl TypeError"

definition tag_names :: "json list \<Rightarrow> py_error + string list" where
  "tag_names tags =
     (case tag_values tags of Inl e \<Rightarrow> Inl e | Inr vs \<Rightarrow> texts vs)"

text \<open>
  What \<open>session.post\<close> yields: an exception of the transport, or a response with its
  status and what \<open>await response.json()\<close> returns or raises.
\<close>

datatype post_result = Raised py_error | Response int "py_error + json"

text \<open>What is printed to the console.\<close>

datatype message =
    Prompt | RequestFailed int | InvalidResponse | FetchError py_error
  | InvalidUrl | FetchFailed | Completed string

text \<open>The dict of lines 57 to 65, built from the question object.\<close>

definition question_record :: "json \<Rightarrow> string \<Rightarrow> py_error + json question_data" where
  "question_record question slug =
     (case getitem question ''questionFrontendId'' of Inl e \<Rightarrow> Inl e | Inr qid \<Rightarrow>
      case getitem question ''title'' of Inl e \<Rightarrow> Inl e | Inr title \<Rightarrow>
      case getitem question ''difficulty'' of Inl e \<Rightarrow> Inl e | Inr diff \<Rightarrow>
      case getitem question ''topicTags'' of Inl e \<Rightarrow> Inl e | Inr tags \<Rightarrow>
      case elements tags of Inl e \<Rightarrow> Inl e | Inr items \<Rightarrow>
      case tag_names items of Inl e \<Rightarrow> Inl e | Inr names \<Rightarrow>
        Inr \<lparr>question_id = qid, question_title = title, question_slug = slug,
             difficulty = diff, topic_tags = str_join '', '' names\<rparr>)"

text \<open>The body of the \<open>try\<close> statement: \<open>Inl\<close> is an exception raised inside it.\<close>

fun fetch_try ::
  "post_result \<Rightarrow> string \<Rightarrow> py_error + (message list \<times> json question_data option)" where
  "fetch_try (Raised e) slug = Inl e"
| "fetch_try (Response status body) slug =
     (if status \<noteq> 200 then Inr ([RequestFailed status], None)
      else case body of Inl e \<Rightarrow> Inl e | Inr data \<Rightarrow>
        (case contains ''data'' data of Inl e \<Rightarrow> Inl e | Inr has_data \<Rightarrow>
           if \<not> has_data then Inr ([InvalidResponse], None)
           else case getitem data ''data'' of Inl e \<Rightarrow> Inl e | Inr d \<Rightarrow>
             (case getitem d ''question'' of Inl e \<Rightarrow> Inl e | Inr question \<Rightarrow>
                if \<not> truthy question then Inr ([InvalidResponse], None)
                else case question_record question slug of
                       Inl e \<Rightarrow> Inl e
                     | Inr r \<Rightarrow> Inr ([], Some r))))"

text \<open>
  \<open>fetch_problem_data\<close>: \<open>except Exception\<close> turns every exception of the body into a
  warning and the result \<open>None\<close>. \<open>result\<close> is what \<open>session.post\<close> yields for the slug.
\<close>

definition fetch_problem_data ::
  "post_result \<Rightarrow> string \<Rightarrow> message list \<times> json question_data option" where
  "fetch_problem_data result slug =
     (case fetch_try result slug of
        Inl e \<Rightarrow> ([FetchError e], None)
      | Inr r \<Rightarrow> r)"

section \<open>Orchestrator\<close>

text \<open>
  The world \<open>main\<close> acts on: the file system, the console, and the slugs for which a
  request has been sent. \<open>post\<close> is the remote service, \<open>fmt\<close> is how an f-string
  renders a fetched value, \<open>url\<close> is the line that \<open>input\<close> reads.
\<close>

record world =
  files :: filesystem
  console :: "message list"
  requests :: "string list"

definition print :: "message \<Rightarrow> world \<Rightarrow> world" where
  "print m w = w\<lparr>console := console w @ [m]\<rparr>"

definition formatted :: "(json \<Rightarrow> string) \<Rightarrow> json question_data \<Rightarrow> string question_data" where
  "formatted fmt d =
     \<lparr>question_id = fmt (question_id d), question_title = fmt (question_title d),
      question_slug = question_slug d, difficulty = fmt (difficulty d),
      topic_tags = topic_tags d\<rparr>"

definition main ::
  "(json \<Rightarrow> string) \<Rightarrow> (string \<Rightarrow> post_result) \<Rightarrow> string \<Rightarrow> string \<Rightarrow> world
   \<Rightarrow> world \<times> py_error option" where
  "main fmt post now url w =
     (let w0 = print Prompt w
      in case extract_question_slug url of
           None \<Rightarrow> (print InvalidUrl w0, None)
         | Some slug \<Rightarrow>
             if slug = [] then (print InvalidUrl w0, None)
             else
               (let (warnings, fetched) = fetch_problem_data (post slug) slug;
                    w1 = w0\<lparr>requests := requests w0 @ [slug],
                            console := console w0 @ warnings\<rparr>
                in case fetched of
                     None \<Rightarrow> (print FetchFailed w1, None)
                   | Some d \<Rightarrow>
                       (let q = formatted fmt d
                        in case setup_problem_directory now (files w1) (question_id q)
                                  (question_slug q) (question_title q) of
                             (fs1, Some e) \<Rightarrow> (w1\<lparr>files := fs1\<rparr>, Some e)
                           | (fs1, None) \<Rightarrow>
                               (case update_main_readme fs1 q url of
                                  (fs2, Some e) \<Rightarrow> (w1\<lparr>files := fs2\<rparr>, Some e)
                                | (fs2, None) \<Rightarrow>
                                    (print (Completed (question_title q))
                                       (w1\<lparr>files := fs2\<rparr>), None)))))"

chapter \<open>Properties\<close>

section \<open>Properties of the slug extractor\<close>

lemma slug_at_Nil: "slug_at [] = None"
  by (simp add: slug_at_def marker_def)

lemma slug_at_marker:
  "slug_at (marker @ rest) =
     (if takeWhile (\<lambda>c. c \<noteq> CHR ''/'') rest = [] then None
      else Some (takeWhile (\<lambda>c. c \<noteq> CHR ''/'') rest))"
  by (simp add: slug_at_def)

lemma slug_at_Some_iff:
  "slug_at s \<noteq> None \<longleftrightarrow> (\<exists>c q. s = marker @ c # q \<and> c \<noteq> CHR ''/'')"
proof
  assume a: "slug_at s \<noteq> None"
  then have m: "take (length marker) s = marker"
    by (auto simp: slug_at_def split: if_splits)
  then have s: "s = marker @ drop (length marker) s"
    by (metis append_take_drop_id)
  from a m have "takeWhile (\<lambda>c. c \<noteq> CHR ''/'') (drop (length marker) s) \<noteq> []"
    by (auto simp: slug_at_def Let_def split: if_splits)
  then obtain c q where d: "drop (length marker) s = c # q" and c: "c \<noteq> CHR ''/''"
    by (cases "drop (length marker) s") (auto split: if_splits)
  from s d have "s = marker @ c # q" by simp
  with c show "\<exists>c q. s = marker @ c # q \<and> c \<noteq> CHR ''/''" by blast
next
  assume "\<exists>c q. s = marker @ c # q \<and> c \<noteq> CHR ''/''"
  then obtain c q where "s = marker @ c # q" and "c \<noteq> CHR ''/''" by blast
  then show "slug_at s \<noteq> None"
    by (simp add: slug_at_marker)
qed

lemma re_search_first:
  "\<forall>i<length pre. slug_at (drop i (pre @ s)) = None \<Longrightarrow> slug_at s = Some r \<Longrightarrow>
   re_search (pre @ s) = Some r"
proof (induction pre)
  case Nil
  then show ?case by (cases s) (auto simp: slug_at_Nil)
next
  case (Cons p ps)
  from Cons.prems(1) have h0: "slug_at (p # ps @ s) = None" by force
  have "\<forall>i<length ps. slug_at (drop i (ps @ s)) = None"
  proof (intro allI impI)
    fix i assume "i < length ps"
    then have "Suc i < length (p # ps)" by simp
    with Cons.prems(1) have "slug_at (drop (Suc i) ((p # ps) @ s)) = None" by blast
    then show "slug_at (drop i (ps @ s)) = None" by simp
  qed
  with Cons.IH Cons.prems(2) have "re_search (ps @ s) = Some r" by blast
  with h0 show ?case by simp
qed

lemma re_search_None:
  "\<forall>i<length s. slug_at (drop i s) = None \<Longrightarrow> re_search s = None"
proof (induction s)
  case Nil
  then show ?case by simp
next
  case (Cons c cs)
  from Cons.prems have h0: "slug_at (c # cs) = None" by force
  have "\<forall>i<length cs. slug_at (drop i cs) = None"
  proof (intro allI impI)
    fix i assume "i < length cs"
    then have "Suc i < length (c # cs)" by simp
    with Cons.prems have "slug_at (drop (Suc i) (c # cs)) = None" by blast
    then show "slug_at (drop i cs) = None" by simp
  qed
  with Cons.IH have "re_search cs = None" by blast
  with h0 show ?case by simp
qed

text \<open>
  The executable test \<open>no_match_before\<close> says that every occurrence of the marker followed
  by a character other than \<open>/\<close> starts at position \<open>n\<close> or later.
\<close>

lemma no_match_before_iff:
  "no_match_before url n \<longleftrightarrow>
   (\<forall>p c q. url = p @ marker @ c # q \<and> c \<noteq> CHR ''/'' \<longrightarrow> n \<le> length p)"
proof
  assume a: "no_match_before url n"
  show "\<forall>p c q. url = p @ marker @ c # q \<and> c \<noteq> CHR ''/'' \<longrightarrow> n \<le> length p"
  proof (intro allI impI)
    fix p c q assume u: "url = p @ marker @ c # q \<and> c \<noteq> CHR ''/''"
    show "n \<le> length p"
    proof (rule ccontr)
      assume "\<not> n \<le> length p"
      then have "length p < n" by simp
      with a have "slug_at (drop (length p) url) = None"
        by (simp add: no_match_before_def list_all_iff)
      moreover from u have "drop (length p) url = marker @ c # q" by simp
      ultimately have "slug_at (marker @ c # q) = None" by simp
      with u show False using slug_at_Some_iff by blast
    qed
  qed
next
  assume a: "\<forall>p c q. url = p @ marker @ c # q \<and> c \<noteq> CHR ''/'' \<longrightarrow> n \<le> length p"
  have "slug_at (drop i url) = None" if "i < n" for i
  proof (rule ccontr)
    assume "slug_at (drop i url) \<noteq> None"
    then obtain c q where d: "drop i url = marker @ c # q" and c: "c \<noteq> CHR ''/''"
      using slug_at_Some_iff by blast
    then have "i < length url" by (cases "i < length url") auto
    have "url = take i url @ marker @ c # q"
      using d by (metis append_take_drop_id)
    with a c have "n \<le> length (take i url)" by blast
    with \<open>i < length url\<close> \<open>i < n\<close> show False by simp
  qed
  then show "no_match_before url n"
    by (simp add: no_match_before_def list_all_iff)
qed

lemma extract_first_match:
  assumes "url = pre @ marker @ rest"
    and "\<forall>p c q. url = p @ marker @ c # q \<and> c \<noteq> CHR ''/'' \<longrightarrow> length pre \<le> length p"
    and "takeWhile (\<lambda>c. c \<noteq> CHR ''/'') rest \<noteq> []"
  shows "extract_question_slug url = Some (takeWhile (\<lambda>c. c \<noteq> CHR ''/'') rest)"
proof -
  from assms(2) have "no_match_before url (length pre)"
    by (simp add: no_match_before_iff)
  then have "\<forall>i<length pre. slug_at (drop i (pre @ marker @ rest)) = None"
    by (simp add: no_match_before_def list_all_iff assms(1))
  moreover from assms(3)
  have "slug_at (marker @ rest) = Some (takeWhile (\<lambda>c. c \<noteq> CHR ''/'') rest)"
    by (simp add: slug_at_marker)
  ultimately have "re_search (pre @ marker @ rest) = Some (takeWhile (\<lambda>c. c \<noteq> CHR ''/'') rest)"
    by (rule re_search_first)
  then show ?thesis by (simp add: extract_question_slug_def assms(1))
qed

lemma extract_no_match:
  assumes "\<not> (\<exists>p c q. url = p @ marker @ c # q \<and> c \<noteq> CHR ''/'')"
  shows "extract_question_slug url = None"
proof -
  from assms have "no_match_before url (length url)"
    by (auto simp: no_match_before_iff)
  then have "\<forall>i<length url. slug_at (drop i url) = None"
    by (simp add: no_match_before_def list_all_iff)
  then show ?thesis
    by (simp add: extract_question_slug_def re_search_None)
qed

lemma first_match_exec:
  "no_match_before url n \<Longrightarrow>
   \<forall>p c q. url = p @ ''problems/'' @ c # q \<and> c \<noteq> CHR ''/'' \<longrightarrow> n \<le> length p"
  using no_match_before_iff [of url n] by (simp add: marker_def)

lemma no_match_exec:
  "no_match_before url (length url) \<Longrightarrow>
   \<not> (\<exists>p c q. url = p @ ''problems/'' @ c # q \<and> c \<noteq> CHR ''/'')"
  using no_match_before_iff [of url "length url"] by (auto simp: marker_def)

lemma takeWhile_segment:
  "CHR ''/'' \<notin> set slug \<Longrightarrow>
   takeWhile (\<lambda>c. c \<noteq> CHR ''/'') (slug @ CHR ''/'' # post) = slug"
  by (auto simp: takeWhile_tail)

text \<open>
  C5, as amended. When a URL reads \<open>pre problems/<slug>/ post\<close> with a non-empty slug free
  of \<open>/\<close>, and no occurrence of \<open>problems/\<close> followed by a character other than \<open>/\<close>
  starts before this one, the extractor returns exactly the slug. When the URL contains no
  \<open>problems/\<close> followed by a character other than \<open>/\<close>, it returns \<open>None\<close>.
\<close>

theorem extract_question_slug_first_segment:
  "(url = pre @ ''problems/'' @ slug @ CHR ''/'' # post \<and> slug \<noteq> [] \<and> CHR ''/'' \<notin> set slug \<and>
    (\<forall>p c q. url = p @ ''problems/'' @ c # q \<and> c \<noteq> CHR ''/'' \<longrightarrow> length pre \<le> length p)
    \<longrightarrow> extract_question_slug url = Some slug) \<and>
   (\<not> (\<exists>p c q. url = p @ ''problems/'' @ c # q \<and> c \<noteq> CHR ''/'')
    \<longrightarrow> extract_question_slug url = None)"
proof (intro conjI impI)
  assume a: "url = pre @ ''problems/'' @ slug @ CHR ''/'' # post \<and> slug \<noteq> [] \<and>
    CHR ''/'' \<notin> set slug \<and>
    (\<forall>p c q. url = p @ ''problems/'' @ c # q \<and> c \<noteq> CHR ''/'' \<longrightarrow> length pre \<le> length p)"
  then have tw: "takeWhile (\<lambda>c. c \<noteq> CHR ''/'') (slug @ CHR ''/'' # post) = slug"
    by (simp add: takeWhile_segment)
  have "extract_question_slug url
          = Some (takeWhile (\<lambda>c. c \<noteq> CHR ''/'') (slug @ CHR ''/'' # post))"
  proof (rule extract_first_match [where pre = pre])
    show "url = pre @ marker @ slug @ CHR ''/'' # post" using a by (simp add: marker_def)
    show "\<forall>p c q. url = p @ marker @ c # q \<and> c \<noteq> CHR ''/'' \<longrightarrow> length pre \<le> length p"
      using a unfolding marker_def by blast
    show "takeWhile (\<lambda>c. c \<noteq> CHR ''/'') (slug @ CHR ''/'' # post) \<noteq> []"
      using a tw by simp
  qed
  with tw show "extract_question_slug url = Some slug" by simp
next
  assume "\<not> (\<exists>p c q. url = p @ ''problems/'' @ c # q \<and> c \<noteq> CHR ''/'')"
  then show "extract_question_slug url = None"
    using extract_no_match [of url] by (simp add: marker_def)
qed

theorem extract_question_slug_first_segment_witness:
  "extract_question_slug ''https://leetcode.com/problems/two-sum/description/'' = Some ''two-sum'' \<and>
   extract_question_slug ''https://leetcode.com/discuss/general'' = None"
proof
  have 1: "no_match_before ''https://leetcode.com/problems/two-sum/description/''
             (length ''https://leetcode.com/'')"
    by code_simp
  show "extract_question_slug ''https://leetcode.com/problems/two-sum/description/'' = Some ''two-sum''"
    using extract_question_slug_first_segment
      [of "''https://leetcode.com/problems/two-sum/description/''" "''https://leetcode.com/''"
          "''two-sum''" "''description/''"]
      first_match_exec [OF 1]
    by simp
  have 2: "no_match_before ''https://leetcode.com/discuss/general''
             (length ''https://leetcode.com/discuss/general'')"
    by code_simp
  show "extract_question_slug ''https://leetcode.com/discuss/general'' = None"
    using extract_question_slug_first_segment
      [of "''https://leetcode.com/discuss/general''"] no_match_exec [OF 2]
    by blast
qed

text \<open>
  C5 as stated fails: this URL contains \<open>problems/b/\<close>, and the extractor returns the
  segment of the earlier occurrence, \<open>a\<close>.
\<close>

theorem extract_question_slug_later_segment:
  "extract_question_slug (''https://leetcode.com/problems/a/'' @ ''problems/'' @ ''b'' @ ''/'')
     = Some ''a''"
  by code_simp

text \<open>
  C10, as amended. The extractor returns the longest run of characters other than \<open>/\<close>
  that follows the first occurrence of \<open>problems/\<close> which is followed by such a
  character: the run ends at the next \<open>/\<close> or at the end of the URL, and whatever else
  stands in it is part of the result.
\<close>

theorem extract_question_slug_maximal_run:
  "url = pre @ ''problems/'' @ rest \<and>
   (\<forall>p c q. url = p @ ''problems/'' @ c # q \<and> c \<noteq> CHR ''/'' \<longrightarrow> length pre \<le> length p) \<and>
   takeWhile (\<lambda>c. c \<noteq> CHR ''/'') rest \<noteq> []
   \<longrightarrow> extract_question_slug url = Some (takeWhile (\<lambda>c. c \<noteq> CHR ''/'') rest)"
proof
  assume a: "url = pre @ ''problems/'' @ rest \<and>
   (\<forall>p c q. url = p @ ''problems/'' @ c # q \<and> c \<noteq> CHR ''/'' \<longrightarrow> length pre \<le> length p) \<and>
   takeWhile (\<lambda>c. c \<noteq> CHR ''/'') rest \<noteq> []"
  show "extract_question_slug url = Some (takeWhile (\<lambda>c. c \<noteq> CHR ''/'') rest)"
  proof (rule extract_first_match [where pre = pre])
    show "url = pre @ marker @ rest" using a by (simp add: marker_def)
    show "\<forall>p c q. url = p @ marker @ c # q \<and> c \<noteq> CHR ''/'' \<longrightarrow> length pre \<le> length p"
      using a unfolding marker_def by blast
    show "takeWhile (\<lambda>c. c \<noteq> CHR ''/'') rest \<noteq> []" using a by simp
  qed
qed

theorem extract_question_slug_maximal_run_witness:
  "extract_question_slug ''https://leetcode.com/problems/two-sum'' = Some ''two-sum'' \<and>
   extract_question_slug ''https://leetcode.com/problems/two-sum?tab=description''
     = Some ''two-sum?tab=description''"
proof
  have 1: "no_match_before ''https://leetcode.com/problems/two-sum''
             (length ''https://leetcode.com/'')"
    by code_simp
  show "extract_question_slug ''https://leetcode.com/problems/two-sum'' = Some ''two-sum''"
    using extract_question_slug_maximal_run
      [of "''https://leetcode.com/problems/two-sum''" "''https://leetcode.com/''" "''two-sum''"]
      first_match_exec [OF 1]
    by simp
  have 2: "no_match_before ''https://leetcode.com/problems/two-sum?tab=description''
             (length ''https://leetcode.com/'')"
    by code_simp
  show "extract_question_slug ''https://leetcode.com/problems/two-sum?tab=description''
          = Some ''two-sum?tab=description''"
    using extract_question_slug_maximal_run
      [of "''https://leetcode.com/problems/two-sum?tab=description''" "''https://leetcode.com/''"
          "''two-sum?tab=description''"]
      first_match_exec [OF 2]
    by simp
qed

text \<open>
  C10 as stated fails: the first occurrence of \<open>problems/\<close> in this URL is followed by
  \<open>/\<close>, so the run after it is empty, and the extractor returns the segment of the
  second occurrence.
\<close>

theorem extract_question_slug_skips_empty_run:
  "takeWhile (\<lambda>c. c \<noteq> CHR ''/'') ''/problems/x'' = [] \<and>
   extract_question_slug (''problems/'' @ ''/problems/x'') = Some ''x''"
  by code_simp

section \<open>Index updater: the three cases of the document\<close>

lemma dirname_root_readme: "dirname root_readme = []"
  by code_simp

lemma parent_error_root_readme: "parent_error fs root_readme = None"
  by (simp add: parent_error_def dirname_root_readme)

lemma open_write_root_readme:
  "fs root_readme \<noteq> Some Dir \<Longrightarrow>
   open_write fs root_readme text = (fs(root_readme \<mapsto> File text), None)"
  by (auto simp: open_write_def parent_error_root_readme split: option.splits node.splits)

lemma update_absent:
  "fs root_readme = None \<Longrightarrow>
   update_main_readme fs q url =
     (case entries_of (with_entry (read_lines header_text) (new_entry q url)) of
        Inl e \<Rightarrow> (fs(root_readme \<mapsto> File header_text), Some e)
      | Inr entries \<Rightarrow>
          (fs(root_readme \<mapsto> File (document_text
             (header_of (with_entry (read_lines header_text) (new_entry q url)) @ entries))),
           None))"
  by (simp add: update_main_readme_def path_exists_def open_write_root_readme open_read_def
      parent_error_root_readme Let_def split: sum.splits)

lemma update_present:
  "fs root_readme = Some (File text) \<Longrightarrow>
   update_main_readme fs q url =
     (case entries_of (with_entry (read_lines text) (new_entry q url)) of
        Inl e \<Rightarrow> (fs, Some e)
      | Inr entries \<Rightarrow>
          (fs(root_readme \<mapsto> File (document_text
             (header_of (with_entry (read_lines text) (new_entry q url)) @ entries))),
           None))"
  by (simp add: update_main_readme_def path_exists_def open_write_root_readme open_read_def
      parent_error_root_readme Let_def split: sum.splits)

lemma update_directory:
  "fs root_readme = Some Dir \<Longrightarrow> update_main_readme fs q url = (fs, Some IsADirectoryError)"
  by (simp add: update_main_readme_def path_exists_def open_read_def parent_error_root_readme)

lemma update_rewritten:
  "fs root_readme = Some (File text) \<or> fs root_readme = None \<and> text = header_text \<Longrightarrow>
   update_main_readme fs q url =
     (case rewritten text q url of
        Inl e \<Rightarrow> (if fs root_readme = None then fs(root_readme \<mapsto> File header_text) else fs,
                  Some e)
      | Inr doc \<Rightarrow> (fs(root_readme \<mapsto> File doc), None))"
  by (auto simp: update_absent update_present rewritten_def Let_def split: sum.splits)

lemma read_header_text:
  "read_lines header_text =
     [''# Leetcode'', ''### Leetcode Problem Index'',
      ''| # | Title | Solution | Tags | Difficulty |'',
      ''|:----:|:--------:|:--------:|:-------:|:----------:|'']"
  by code_simp

lemma two_sum_entry:
  "new_entry \<lparr>question_id = ''1'', question_title = ''Two Sum'', question_slug = ''two-sum'',
      difficulty = ''Easy'', topic_tags = ''Array, Hash Table''\<rparr> ''https://leetcode.com/problems/two-sum/''
   = ''| 1 | [Two Sum](https://leetcode.com/problems/two-sum/) | [Python](problemset/1.two-sum/two-sum.py) | Array, Hash Table | Easy |''"
  by code_simp

lemma two_sum_entries:
  "entries_of (with_entry
     [''# Leetcode'', ''### Leetcode Problem Index'',
      ''| # | Title | Solution | Tags | Difficulty |'',
      ''|:----:|:--------:|:--------:|:-------:|:----------:|'']
     ''| 1 | [Two Sum](https://leetcode.com/problems/two-sum/) | [Python](problemset/1.two-sum/two-sum.py) | Array, Hash Table | Easy |'')
   = Inr [''| 1 | [Two Sum](https://leetcode.com/problems/two-sum/) | [Python](problemset/1.two-sum/two-sum.py) | Array, Hash Table | Easy |'']"
  by code_simp

lemma two_sum_header:
  "header_of (with_entry
     [''# Leetcode'', ''### Leetcode Problem Index'',
      ''| # | Title | Solution | Tags | Difficulty |'',
      ''|:----:|:--------:|:--------:|:-------:|:----------:|'']
     ''| 1 | [Two Sum](https://leetcode.com/problems/two-sum/) | [Python](problemset/1.two-sum/two-sum.py) | Array, Hash Table | Easy |'')
   = [''# Leetcode'', ''### Leetcode Problem Index'',
      ''| # | Title | Solution | Tags | Difficulty |'',
      ''|:----:|:--------:|:--------:|:-------:|:----------:|'']"
  by code_simp

lemma two_sum_document:
  "document_text ([''# Leetcode'', ''### Leetcode Problem Index'',
      ''| # | Title | Solution | Tags | Difficulty |'',
      ''|:----:|:--------:|:--------:|:-------:|:----------:|''] @
     [''| 1 | [Two Sum](https://leetcode.com/problems/two-sum/) | [Python](problemset/1.two-sum/two-sum.py) | Array, Hash Table | Easy |''])
   = ''# Leetcode\<newline>### Leetcode Problem Index\<newline>| # | Title | Solution | Tags | Difficulty |\<newline>|:----:|:--------:|:--------:|:-------:|:----------:|\<newline>| 1 | [Two Sum](https://leetcode.com/problems/two-sum/) | [Python](problemset/1.two-sum/two-sum.py) | Array, Hash Table | Easy |\<newline>''"
  by code_simp

text \<open>
  C2, as amended. When the index document does not exist, or exists and its non-blank
  lines are exactly the four header lines, the update for the record of Two Sum and its
  URL leaves a document that consists of the four header lines, the one row and a
  closing newline.
\<close>

theorem update_main_readme_first_entry:
  "fs root_readme = None \<or>
   (fs root_readme = Some (File text) \<and>
    read_lines text =
      [''# Leetcode'', ''### Leetcode Problem Index'',
      ''| # | Title | Solution | Tags | Difficulty |'',
      ''|:----:|:--------:|:--------:|:-------:|:----------:|'']) \<Longrightarrow>
   update_main_readme fs
     \<lparr>question_id = ''1'', question_title = ''Two Sum'', question_slug = ''two-sum'',
      difficulty = ''Easy'', topic_tags = ''Array, Hash Table''\<rparr>
     ''https://leetcode.com/problems/two-sum/''
   = (fs(root_readme \<mapsto> File
        ''# Leetcode\<newline>### Leetcode Problem Index\<newline>| # | Title | Solution | Tags | Difficulty |\<newline>|:----:|:--------:|:--------:|:-------:|:----------:|\<newline>| 1 | [Two Sum](https://leetcode.com/problems/two-sum/) | [Python](problemset/1.two-sum/two-sum.py) | Array, Hash Table | Easy |\<newline>''),
      None)"
proof (elim disjE conjE)
  assume "fs root_readme = None"
  then show ?thesis
    by (simp only: update_absent read_header_text two_sum_entry two_sum_entries two_sum_header
        two_sum_document sum.case)
next
  assume "fs root_readme = Some (File text)"
    and "read_lines text =
      [''# Leetcode'', ''### Leetcode Problem Index'',
      ''| # | Title | Solution | Tags | Difficulty |'',
      ''|:----:|:--------:|:--------:|:-------:|:----------:|'']"
  then show ?thesis
    by (simp only: update_present two_sum_entry two_sum_entries two_sum_header
        two_sum_document sum.case)
qed

theorem update_main_readme_first_entry_witness:
  "update_main_readme Map.empty
     \<lparr>question_id = ''1'', question_title = ''Two Sum'', question_slug = ''two-sum'',
      difficulty = ''Easy'', topic_tags = ''Array, Hash Table''\<rparr>
     ''https://leetcode.com/problems/two-sum/''
   = ([root_readme \<mapsto> File
        ''# Leetcode\<newline>### Leetcode Problem Index\<newline>| # | Title | Solution | Tags | Difficulty |\<newline>|:----:|:--------:|:--------:|:-------:|:----------:|\<newline>| 1 | [Two Sum](https://leetcode.com/problems/two-sum/) | [Python](problemset/1.two-sum/two-sum.py) | Array, Hash Table | Easy |\<newline>''],
      None) \<and>
   update_main_readme [root_readme \<mapsto> File header_text]
     \<lparr>question_id = ''1'', question_title = ''Two Sum'', question_slug = ''two-sum'',
      difficulty = ''Easy'', topic_tags = ''Array, Hash Table''\<rparr>
     ''https://leetcode.com/problems/two-sum/''
   = ([root_readme \<mapsto> File
        ''# Leetcode\<newline>### Leetcode Problem Index\<newline>| # | Title | Solution | Tags | Difficulty |\<newline>|:----:|:--------:|:--------:|:-------:|:----------:|\<newline>| 1 | [Two Sum](https://leetcode.com/problems/two-sum/) | [Python](problemset/1.two-sum/two-sum.py) | Array, Hash Table | Easy |\<newline>''],
      None)"
proof
  have absent: "Map.empty root_readme = None" by simp
  show "update_main_readme Map.empty
     \<lparr>question_id = ''1'', question_title = ''Two Sum'', question_slug = ''two-sum'',
      difficulty = ''Easy'', topic_tags = ''Array, Hash Table''\<rparr>
     ''https://leetcode.com/problems/two-sum/''
   = ([root_readme \<mapsto> File
        ''# Leetcode\<newline>### Leetcode Problem Index\<newline>| # | Title | Solution | Tags | Difficulty |\<newline>|:----:|:--------:|:--------:|:-------:|:----------:|\<newline>| 1 | [Two Sum](https://leetcode.com/problems/two-sum/) | [Python](problemset/1.two-sum/two-sum.py) | Array, Hash Table | Easy |\<newline>''],
      None)"
    using update_main_readme_first_entry [of Map.empty] absent by blast
  have present: "[root_readme \<mapsto> File header_text] root_readme = Some (File header_text)"
    by simp
  have "update_main_readme [root_readme \<mapsto> File header_text]
     \<lparr>question_id = ''1'', question_title = ''Two Sum'', question_slug = ''two-sum'',
      difficulty = ''Easy'', topic_tags = ''Array, Hash Table''\<rparr>
     ''https://leetcode.com/problems/two-sum/''
   = ([root_readme \<mapsto> File header_text](root_readme \<mapsto> File
        ''# Leetcode\<newline>### Leetcode Problem Index\<newline>| # | Title | Solution | Tags | Difficulty |\<newline>|:----:|:--------:|:--------:|:-------:|:----------:|\<newline>| 1 | [Two Sum](https://leetcode.com/problems/two-sum/) | [Python](problemset/1.two-sum/two-sum.py) | Array, Hash Table | Easy |\<newline>''),
      None)"
    using update_main_readme_first_entry [of "[root_readme \<mapsto> File header_text]" header_text]
      present read_header_text
    by blast
  then show "update_main_readme [root_readme \<mapsto> File header_text]
     \<lparr>question_id = ''1'', question_title = ''Two Sum'', question_slug = ''two-sum'',
      difficulty = ''Easy'', topic_tags = ''Array, Hash Table''\<rparr>
     ''https://leetcode.com/problems/two-sum/''
   = ([root_readme \<mapsto> File
        ''# Leetcode\<newline>### Leetcode Problem Index\<newline>| # | Title | Solution | Tags | Difficulty |\<newline>|:----:|:--------:|:--------:|:-------:|:----------:|\<newline>| 1 | [Two Sum](https://leetcode.com/problems/two-sum/) | [Python](problemset/1.two-sum/two-sum.py) | Array, Hash Table | Easy |\<newline>''],
      None)"
    by (simp only: fun_upd_upd)
qed

lemma two_sum_empty_file:
  "rewritten []
     \<lparr>question_id = ''1'', question_title = ''Two Sum'', question_slug = ''two-sum'',
      difficulty = ''Easy'', topic_tags = ''Array, Hash Table''\<rparr>
     ''https://leetcode.com/problems/two-sum/''
   = Inr ''| 1 | [Two Sum](https://leetcode.com/problems/two-sum/) | [Python](problemset/1.two-sum/two-sum.py) | Array, Hash Table | Easy |\<newline>''"
  by code_simp

text \<open>
  C2 as stated fails: when the index document exists and is empty, no header is written;
  the row becomes the only line of the document.
\<close>

theorem update_main_readme_empty_file:
  "update_main_readme [root_readme \<mapsto> File []]
     \<lparr>question_id = ''1'', question_title = ''Two Sum'', question_slug = ''two-sum'',
      difficulty = ''Easy'', topic_tags = ''Array, Hash Table''\<rparr>
     ''https://leetcode.com/problems/two-sum/''
   = ([root_readme \<mapsto> File
        ''| 1 | [Two Sum](https://leetcode.com/problems/two-sum/) | [Python](problemset/1.two-sum/two-sum.py) | Array, Hash Table | Easy |\<newline>''],
      None) \<and>
   ''| 1 | [Two Sum](https://leetcode.com/problems/two-sum/) | [Python](problemset/1.two-sum/two-sum.py) | Array, Hash Table | Easy |\<newline>''
   \<noteq> ''# Leetcode\<newline>### Leetcode Problem Index\<newline>| # | Title | Solution | Tags | Difficulty |\<newline>|:----:|:--------:|:--------:|:-------:|:----------:|\<newline>| 1 | [Two Sum](https://leetcode.com/problems/two-sum/) | [Python](problemset/1.two-sum/two-sum.py) | Array, Hash Table | Easy |\<newline>''"
proof
  have present: "[root_readme \<mapsto> File []] root_readme = Some (File [])" by simp
  have "update_main_readme [root_readme \<mapsto> File []]
     \<lparr>question_id = ''1'', question_title = ''Two Sum'', question_slug = ''two-sum'',
      difficulty = ''Easy'', topic_tags = ''Array, Hash Table''\<rparr>
     ''https://leetcode.com/problems/two-sum/'' =
     (case rewritten []
        \<lparr>question_id = ''1'', question_title = ''Two Sum'', question_slug = ''two-sum'',
      difficulty = ''Easy'', topic_tags = ''Array, Hash Table''\<rparr>
        ''https://leetcode.com/problems/two-sum/'' of
        Inl e \<Rightarrow> (if [root_readme \<mapsto> File []] root_readme = None
                  then [root_readme \<mapsto> File []](root_readme \<mapsto> File header_text)
                  else [root_readme \<mapsto> File []], Some e)
      | Inr doc \<Rightarrow> ([root_readme \<mapsto> File []](root_readme \<mapsto> File doc), None))"
    using present by (intro update_rewritten) blast
  then show "update_main_readme [root_readme \<mapsto> File []]
     \<lparr>question_id = ''1'', question_title = ''Two Sum'', question_slug = ''two-sum'',
      difficulty = ''Easy'', topic_tags = ''Array, Hash Table''\<rparr>
     ''https://leetcode.com/problems/two-sum/''
   = ([root_readme \<mapsto> File
        ''| 1 | [Two Sum](https://leetcode.com/problems/two-sum/) | [Python](problemset/1.two-sum/two-sum.py) | Array, Hash Table | Easy |\<newline>''],
      None)"
    by (simp only: two_sum_empty_file sum.case fun_upd_upd)
  show "''| 1 | [Two Sum](https://leetcode.com/problems/two-sum/) | [Python](problemset/1.two-sum/two-sum.py) | Array, Hash Table | Easy |\<newline>''
   \<noteq> ''# Leetcode\<newline>### Leetcode Problem Index\<newline>| # | Title | Solution | Tags | Difficulty |\<newline>|:----:|:--------:|:--------:|:-------:|:----------:|\<newline>| 1 | [Two Sum](https://leetcode.com/problems/two-sum/) | [Python](problemset/1.two-sum/two-sum.py) | Array, Hash Table | Easy |\<newline>''"
    by simp
qed

section \<open>Index updater: sorting\<close>

lemma length_str_split: "length (str_split c s) = Suc (str_count s c)"
  by (induction s) (auto simp: str_count_def split: list.splits)

lemma keyed_Inr:
  "keyed xs = Inr ks \<Longrightarrow> map snd ks = xs \<and> (\<forall>p\<in>set ks. entry_key (snd p) = Inr (fst p))"
  by (induction xs arbitrary: ks) (auto split: sum.splits)

lemma keyed_map_snd:
  "\<forall>p\<in>set ks. entry_key (snd p) = Inr (fst p) \<Longrightarrow> keyed (map snd ks) = Inr ks"
  by (induction ks) auto

lemma keyed_Inl:
  "keyed xs = Inl e \<Longrightarrow> \<exists>x\<in>set xs. entry_key x = Inl e"
  by (induction xs) (auto split: sum.splits)

lemma keyed_total:
  "\<forall>x\<in>set xs. \<exists>k. entry_key x = Inr k \<Longrightarrow> \<exists>ks. keyed xs = Inr ks"
  by (induction xs) (auto split: sum.splits)

lemma list_sort_Inr:
  "list_sort xs = Inr ys \<Longrightarrow> \<exists>ks. keyed xs = Inr ks \<and> ys = map snd (sort_key fst ks)"
  by (auto simp: list_sort_def split: sum.splits)

lemma key_of_keyed:
  assumes "\<forall>p\<in>set ks. entry_key (snd p) = Inr (fst p)"
  shows "map key_of (map snd (sort_key fst ks)) = map fst (sort_key fst ks)"
proof -
  have "\<forall>p\<in>set (sort_key fst ks). key_of (snd p) = fst p"
    using assms by (simp add: key_of_def)
  then show ?thesis by simp
qed

lemma list_sort_sorted:
  assumes "list_sort xs = Inr ys"
  shows "sorted (map key_of ys)" and "mset ys = mset xs"
    and "filter (\<lambda>x. key_of x = k) ys = filter (\<lambda>x. key_of x = k) xs"
proof -
  from assms obtain ks where ks: "keyed xs = Inr ks" and ys: "ys = map snd (sort_key fst ks)"
    using list_sort_Inr by blast
  from ks have xs: "map snd ks = xs" and keys: "\<forall>p\<in>set ks. entry_key (snd p) = Inr (fst p)"
    using keyed_Inr by blast+
  have "map key_of ys = map fst (sort_key fst ks)"
    using keys ys by (simp only: key_of_keyed)
  then show "sorted (map key_of ys)" by simp
  have "mset ys = image_mset snd (mset (sort_key fst ks))" using ys by simp
  also have "\<dots> = image_mset snd (mset ks)" by simp
  also have "\<dots> = mset xs" using xs by (metis mset_map)
  finally show "mset ys = mset xs" .
  have same: "\<forall>p\<in>set ks. (key_of (snd p) = k) = (fst p = k)"
    using keys by (simp add: key_of_def)
  have "filter (\<lambda>x. key_of x = k) ys
          = map snd (filter (\<lambda>p. key_of (snd p) = k) (sort_key fst ks))"
    using ys by (simp add: filter_map comp_def)
  also have "\<dots> = map snd (filter (\<lambda>p. fst p = k) (sort_key fst ks))"
  proof -
    have "filter (\<lambda>p. key_of (snd p) = k) (sort_key fst ks)
            = filter (\<lambda>p. fst p = k) (sort_key fst ks)"
      by (rule filter_cong) (use same in auto)
    then show ?thesis by simp
  qed
  also have "\<dots> = map snd (filter (\<lambda>p. fst p = k) ks)"
    by (simp add: sort_key_stable)
  also have "\<dots> = map snd (filter (\<lambda>p. key_of (snd p) = k) ks)"
  proof -
    have "filter (\<lambda>p. fst p = k) ks = filter (\<lambda>p. key_of (snd p) = k) ks"
      by (rule filter_cong) (use same in auto)
    then show ?thesis by simp
  qed
  also have "\<dots> = filter (\<lambda>x. key_of x = k) (map snd ks)"
    by (simp add: filter_map comp_def)
  also have "\<dots> = filter (\<lambda>x. key_of x = k) xs"
    using xs by simp
  finally show "filter (\<lambda>x. key_of x = k) ys = filter (\<lambda>x. key_of x = k) xs" .
qed

lemma list_sort_again:
  assumes "list_sort xs = Inr ys"
  shows "list_sort ys = Inr ys"
proof -
  from assms obtain ks where ks: "keyed xs = Inr ks" and ys: "ys = map snd (sort_key fst ks)"
    using list_sort_Inr by blast
  from ks have keys: "\<forall>p\<in>set ks. entry_key (snd p) = Inr (fst p)"
    using keyed_Inr by blast
  then have "\<forall>p\<in>set (sort_key fst ks). entry_key (snd p) = Inr (fst p)" by simp
  then have "keyed ys = Inr (sort_key fst ks)"
    unfolding ys by (rule keyed_map_snd)
  moreover have "sort_key fst (sort_key fst ks) = sort_key fst ks"
    by (simp add: sort_key_id_if_sorted)
  ultimately show ?thesis by (simp add: list_sort_def ys)
qed

section \<open>Index updater: filter, order and layout\<close>

lemma update_success:
  assumes "fs root_readme = Some (File text) \<or> fs root_readme = None \<and> text = header_text"
    and "update_main_readme fs q url = (fs', None)"
  shows "\<exists>es. entries_of (with_entry (read_lines text) (new_entry q url)) = Inr es \<and>
              fs' = fs(root_readme \<mapsto> File (document_text
                      (header_of (with_entry (read_lines text) (new_entry q url)) @ es)))"
  using assms
  by (auto simp: update_absent update_present split: sum.splits)

lemma entries_of_Inr:
  assumes "entries_of ls = Inr es"
  shows "sorted (map key_of es)"
    and "mset es = mset (filter (\<lambda>l. 5 \<le> str_count l CHR ''|'') (drop 4 ls))"
  using assms list_sort_sorted(1,2) unfolding entries_of_def by blast+

lemma entries_of_short: "length ls \<le> 4 \<Longrightarrow> entries_of ls = Inr []"
  by (simp add: entries_of_def list_sort_def)

lemma example_rewritten:
  "rewritten
     (header_text @ ''| 5 | a | b | c | d |\<newline>junk | x\<newline>| 2 | a | b | c | d |\<newline>'')
     \<lparr>question_id = ''3'', question_title = ''T'', question_slug = ''s'',
      difficulty = ''Easy'', topic_tags = ''Array''\<rparr> ''u''
   = Inr (''# Leetcode\<newline>### Leetcode Problem Index\<newline>'' @
        ''| # | Title | Solution | Tags | Difficulty |\<newline>'' @
        ''|:----:|:--------:|:--------:|:-------:|:----------:|\<newline>'' @
        ''| 2 | a | b | c | d |\<newline>'' @
        ''| 3 | [T](u) | [Python](problemset/3.s/s.py) | Array | Easy |\<newline>'' @
        ''| 5 | a | b | c | d |\<newline>'')"
  by code_simp


lemma with_entry_short:
  "length ls < 4 \<Longrightarrow> length (with_entry ls e) \<le> 4"
  by (simp add: with_entry_def)

lemma with_entry_take:
  "4 \<le> length ls \<Longrightarrow> take 4 (with_entry ls e) = take 4 ls"
  by (simp add: with_entry_def)

text \<open>
  C9. The new row is appended before the list is cut into header and entries. When the
  document exists with fewer than four non-blank lines, every line and the new row count
  as header: the document written is these lines as they are, in this order, neither
  filtered nor sorted, and the call raises nothing. When the document has four non-blank
  lines or more and the call rewrites it, the header is the first four lines read, and
  the entries after it are the filtered lines in ascending order of their keys.
\<close>

theorem update_main_readme_short_document:
  "(fs root_readme = Some (File text) \<and> length (read_lines text) < 4 \<longrightarrow>
      update_main_readme fs q url =
        (fs(root_readme \<mapsto>
           File (document_text (with_entry (read_lines text) (new_entry q url)))), None)) \<and>
   (fs root_readme = Some (File text) \<and> 4 \<le> length (read_lines text) \<and>
    update_main_readme fs q url = (fs', None) \<longrightarrow>
      (\<exists>es. fs' root_readme = Some (File (document_text (take 4 (read_lines text) @ es))) \<and>
            sorted (map key_of es) \<and>
            mset es = mset (filter (\<lambda>l. 5 \<le> str_count l CHR ''|'')
                        (drop 4 (with_entry (read_lines text) (new_entry q url))))))"
proof (intro conjI impI)
  assume a: "fs root_readme = Some (File text) \<and> length (read_lines text) < 4"
  let ?ls = "with_entry (read_lines text) (new_entry q url)"
  from a have len: "length ?ls \<le> 4" by (simp add: with_entry_short)
  then have "entries_of ?ls = Inr []" by (rule entries_of_short)
  moreover from len have "header_of ?ls = ?ls" by (simp add: header_of_def)
  ultimately show "update_main_readme fs q url =
        (fs(root_readme \<mapsto> File (document_text ?ls)), None)"
    using a by (simp add: update_present)
next
  assume a: "fs root_readme = Some (File text) \<and> 4 \<le> length (read_lines text) \<and>
    update_main_readme fs q url = (fs', None)"
  let ?ls = "with_entry (read_lines text) (new_entry q url)"
  from a obtain es where es: "entries_of ?ls = Inr es"
    and fs': "fs' = fs(root_readme \<mapsto> File (document_text (header_of ?ls @ es)))"
    using update_success [of fs "text" q url "fs'"] by blast
  from a have "header_of ?ls = take 4 (read_lines text)"
    by (simp add: header_of_def with_entry_take)
  with fs' have "fs' root_readme = Some (File (document_text (take 4 (read_lines text) @ es)))"
    by simp
  moreover have "sorted (map key_of es)" using es by (rule entries_of_Inr(1))
  moreover have "mset es = mset (filter (\<lambda>l. 5 \<le> str_count l CHR ''|'') (drop 4 ?ls))"
    using es by (rule entries_of_Inr(2))
  ultimately show "\<exists>es. fs' root_readme = Some (File (document_text (take 4 (read_lines text) @ es))) \<and>
            sorted (map key_of es) \<and>
            mset es = mset (filter (\<lambda>l. 5 \<le> str_count l CHR ''|'') (drop 4 ?ls))"
    by blast
qed

lemma example_short_lines: "read_lines ''notes\<newline>\<newline>| 9 | a | b | c | d |\<newline>'' = [''notes'', ''| 9 | a | b | c | d |'']"
  by code_simp

lemma example_short_text:
  "document_text (with_entry [''notes'', ''| 9 | a | b | c | d |'']
      (new_entry \<lparr>question_id = ''3'', question_title = ''T'', question_slug = ''s'',
         difficulty = ''Easy'', topic_tags = ''Array''\<rparr> ''u''))
   = ''notes\<newline>| 9 | a | b | c | d |\<newline>| 3 | [T](u) | [Python](problemset/3.s/s.py) | Array | Easy |\<newline>''"
  by code_simp

lemma example_long_lines:
  "length (read_lines (header_text @
     ''| 5 | a | b | c | d |\<newline>junk | x\<newline>| 2 | a | b | c | d |\<newline>'')) = 7"
  by code_simp

theorem update_main_readme_short_document_witness:
  "update_main_readme [root_readme \<mapsto> File ''notes\<newline>\<newline>| 9 | a | b | c | d |\<newline>'']
     \<lparr>question_id = ''3'', question_title = ''T'', question_slug = ''s'',
      difficulty = ''Easy'', topic_tags = ''Array''\<rparr> ''u''
   = ([root_readme \<mapsto> File
        ''notes\<newline>| 9 | a | b | c | d |\<newline>| 3 | [T](u) | [Python](problemset/3.s/s.py) | Array | Easy |\<newline>''],
      None) \<and>
   (\<exists>es. [root_readme \<mapsto> File
          (''# Leetcode\<newline>### Leetcode Problem Index\<newline>'' @
           ''| # | Title | Solution | Tags | Difficulty |\<newline>'' @
           ''|:----:|:--------:|:--------:|:-------:|:----------:|\<newline>'' @
           ''| 2 | a | b | c | d |\<newline>'' @
           ''| 3 | [T](u) | [Python](problemset/3.s/s.py) | Array | Easy |\<newline>'' @
           ''| 5 | a | b | c | d |\<newline>'')] root_readme
        = Some (File (document_text
            (take 4 (read_lines (header_text @
               ''| 5 | a | b | c | d |\<newline>junk | x\<newline>| 2 | a | b | c | d |\<newline>'')) @ es))) \<and>
       sorted (map key_of es) \<and>
       mset es = mset (filter (\<lambda>l. 5 \<le> str_count l CHR ''|'')
         (drop 4 (with_entry
            (read_lines (header_text @
               ''| 5 | a | b | c | d |\<newline>junk | x\<newline>| 2 | a | b | c | d |\<newline>''))
            (new_entry \<lparr>question_id = ''3'', question_title = ''T'', question_slug = ''s'',
               difficulty = ''Easy'', topic_tags = ''Array''\<rparr> ''u'')))))"
proof
  let ?doc = "''notes\<newline>\<newline>| 9 | a | b | c | d |\<newline>''"
  let ?q = "\<lparr>question_id = ''3'', question_title = ''T'', question_slug = ''s'',
      difficulty = ''Easy'', topic_tags = ''Array''\<rparr>"
  let ?fs = "[root_readme \<mapsto> File ?doc]"
  have present: "?fs root_readme = Some (File ?doc)" by simp
  have short: "length (read_lines ?doc) < 4" by (simp add: example_short_lines)
  show "update_main_readme ?fs ?q ''u''
   = ([root_readme \<mapsto> File
        ''notes\<newline>| 9 | a | b | c | d |\<newline>| 3 | [T](u) | [Python](problemset/3.s/s.py) | Array | Easy |\<newline>''],
      None)"
    using update_main_readme_short_document [of ?fs ?doc _ _ ?fs] present short
    by (simp only: example_short_lines example_short_text fun_upd_upd)
next
  let ?doc = "header_text @
     ''| 5 | a | b | c | d |\<newline>junk | x\<newline>| 2 | a | b | c | d |\<newline>''"
  let ?q = "\<lparr>question_id = ''3'', question_title = ''T'', question_slug = ''s'',
      difficulty = ''Easy'', topic_tags = ''Array''\<rparr>"
  let ?fs = "[root_readme \<mapsto> File ?doc]"
  have present: "?fs root_readme = Some (File ?doc)" by simp
  have long: "4 \<le> length (read_lines ?doc)" by (simp add: example_long_lines)
  have "update_main_readme ?fs ?q ''u'' =
     (case rewritten ?doc ?q ''u'' of
        Inl e \<Rightarrow> (if ?fs root_readme = None then ?fs(root_readme \<mapsto> File header_text) else ?fs,
                  Some e)
      | Inr doc \<Rightarrow> (?fs(root_readme \<mapsto> File doc), None))"
    using present by (intro update_rewritten) blast
  then have run: "update_main_readme ?fs ?q ''u'' =
     ([root_readme \<mapsto> File
          (''# Leetcode\<newline>### Leetcode Problem Index\<newline>'' @
           ''| # | Title | Solution | Tags | Difficulty |\<newline>'' @
           ''|:----:|:--------:|:--------:|:-------:|:----------:|\<newline>'' @
           ''| 2 | a | b | c | d |\<newline>'' @
           ''| 3 | [T](u) | [Python](problemset/3.s/s.py) | Array | Easy |\<newline>'' @
           ''| 5 | a | b | c | d |\<newline>'')], None)"
    by (simp only: example_rewritten sum.case fun_upd_upd)
  show "\<exists>es. [root_readme \<mapsto> File
          (''# Leetcode\<newline>### Leetcode Problem Index\<newline>'' @
           ''| # | Title | Solution | Tags | Difficulty |\<newline>'' @
           ''|:----:|:--------:|:--------:|:-------:|:----------:|\<newline>'' @
           ''| 2 | a | b | c | d |\<newline>'' @
           ''| 3 | [T](u) | [Python](problemset/3.s/s.py) | Array | Easy |\<newline>'' @
           ''| 5 | a | b | c | d |\<newline>'')] root_readme
        = Some (File (document_text (take 4 (read_lines ?doc) @ es))) \<and>
       sorted (map key_of es) \<and>
       mset es = mset (filter (\<lambda>l. 5 \<le> str_count l CHR ''|'')
         (drop 4 (with_entry (read_lines ?doc) (new_entry ?q ''u''))))"
    using update_main_readme_short_document [of ?fs ?doc ?q "''u''"] present long run by blast
qed

section \<open>Index updater: when the sort raises\<close>

lemma int_of_digits_Inl:
  "int_of_digits s = Inl e \<longleftrightarrow>
   e = ValueError \<and> (s = [] \<or> \<not> list_all decimal_char s \<or> max_str_digits < length s)"
  by (auto simp: int_of_digits_def)

lemma entry_key_Inl:
  assumes "entry_key x = Inl e"
  shows "e = IndexError \<and> str_count x CHR ''|'' = 0 \<or>
         e = ValueError \<and> str_isdigit (str_strip (str_split CHR ''|'' x ! 1)) \<and>
           int_of_digits (str_strip (str_split CHR ''|'' x ! 1)) = Inl ValueError"
proof (cases "str_count x CHR ''|'' = 0")
  case True
  with assms show ?thesis
    by (simp add: entry_key_def Let_def length_str_split)
next
  case False
  then have len: "\<not> length (str_split CHR ''|'' x) \<le> 1"
    by (simp add: length_str_split)
  show ?thesis
  proof (cases "str_isdigit (str_strip (str_split CHR ''|'' x ! 1))")
    case True
    with assms len
    have "int_of_digits (str_strip (str_split CHR ''|'' x ! 1)) = Inl e"
      by (simp add: entry_key_def Let_def split: sum.splits)
    moreover from this have "e = ValueError" by (simp add: int_of_digits_Inl)
    ultimately show ?thesis using True by simp
  next
    case False
    with assms len show ?thesis by (simp add: entry_key_def Let_def)
  qed
qed

lemma entry_key_Inr:
  assumes "1 \<le> str_count x CHR ''|''"
    and "str_isdigit (str_strip (str_split CHR ''|'' x ! 1)) \<longrightarrow>
         int_of_digits (str_strip (str_split CHR ''|'' x ! 1)) \<noteq> Inl ValueError"
  shows "\<exists>k. entry_key x = Inr k"
proof (cases "entry_key x")
  case (Inl e)
  from entry_key_Inl [OF this] assms show ?thesis by auto
next
  case (Inr k)
  then show ?thesis by blast
qed

lemma entries_of_Inl:
  assumes "entries_of ls = Inl e"
  shows "e = ValueError \<and>
         (\<exists>l\<in>set (drop 4 ls). 5 \<le> str_count l CHR ''|'' \<and>
            str_isdigit (str_strip (str_split CHR ''|'' l ! 1)) \<and>
            int_of_digits (str_strip (str_split CHR ''|'' l ! 1)) = Inl ValueError)"
proof -
  from assms have "keyed (filter (\<lambda>l. 5 \<le> str_count l CHR ''|'') (drop 4 ls)) = Inl e"
    by (auto simp: entries_of_def list_sort_def split: sum.splits)
  then obtain l where l: "l \<in> set (drop 4 ls)" "5 \<le> str_count l CHR ''|''"
    and k: "entry_key l = Inl e"
    using keyed_Inl by fastforce
  from entry_key_Inl [OF k] l(2)
  have "e = ValueError \<and> str_isdigit (str_strip (str_split CHR ''|'' l ! 1)) \<and>
           int_of_digits (str_strip (str_split CHR ''|'' l ! 1)) = Inl ValueError"
    by auto
  with l show ?thesis by blast
qed

lemma entries_of_total:
  assumes "\<forall>l\<in>set (drop 4 ls).
             5 \<le> str_count l CHR ''|'' \<and> str_isdigit (str_strip (str_split CHR ''|'' l ! 1)) \<longrightarrow>
             int_of_digits (str_strip (str_split CHR ''|'' l ! 1)) \<noteq> Inl ValueError"
  shows "\<exists>es. entries_of ls = Inr es"
proof (cases "entries_of ls")
  case (Inl e)
  from entries_of_Inl [OF this] assms show ?thesis by blast
next
  case (Inr es)
  then show ?thesis by blast
qed

lemma entries_of_fails:
  assumes "l \<in> set (drop 4 ls)" and "5 \<le> str_count l CHR ''|''"
    and "str_isdigit (str_strip (str_split CHR ''|'' l ! 1))"
    and "int_of_digits (str_strip (str_split CHR ''|'' l ! 1)) = Inl ValueError"
  shows "entries_of ls = Inl ValueError"
proof (cases "entries_of ls")
  case (Inl e)
  with entries_of_Inl [OF this] show ?thesis by simp
next
  case (Inr es)
  then obtain ks
    where ks: "keyed (filter (\<lambda>l. 5 \<le> str_count l CHR ''|'') (drop 4 ls)) = Inr ks"
    unfolding entries_of_def using list_sort_Inr by blast
  from keyed_Inr [OF ks]
  have "map snd ks = filter (\<lambda>l. 5 \<le> str_count l CHR ''|'') (drop 4 ls)"
    and keys: "\<forall>p\<in>set ks. entry_key (snd p) = Inr (fst p)" by blast+
  moreover from assms(1,2)
  have "l \<in> set (filter (\<lambda>l. 5 \<le> str_count l CHR ''|'') (drop 4 ls))" by simp
  ultimately have "l \<in> snd ` set ks" by (metis set_map)
  with keys obtain k where "entry_key l = Inr k" by auto
  moreover have "\<not> length (str_split CHR ''|'' l) \<le> 1"
    using assms(2) by (simp add: length_str_split)
  ultimately show ?thesis
    using assms(3,4) by (simp add: entry_key_def Let_def)
qed

text \<open>
  Whenever the call rewrites the document, the entries after the header are in ascending
  order of their keys: rows with a number in the id column by that number, all other rows
  after them.
\<close>

lemma update_main_readme_sorted:
  assumes "fs root_readme = Some (File text) \<or> fs root_readme = None \<and> text = header_text"
    and "update_main_readme fs q url = (fs', None)"
  shows "\<exists>es. fs' root_readme = Some (File (document_text
             (take 4 (with_entry (read_lines text) (new_entry q url)) @ es))) \<and>
         sorted (map key_of es)"
proof -
  from assms obtain es
    where es: "entries_of (with_entry (read_lines text) (new_entry q url)) = Inr es"
    and fs': "fs' = fs(root_readme \<mapsto> File (document_text
                      (header_of (with_entry (read_lines text) (new_entry q url)) @ es)))"
    using update_success by blast
  from fs' have "fs' root_readme = Some (File (document_text
             (take 4 (with_entry (read_lines text) (new_entry q url)) @ es)))"
    by (simp add: header_of_def)
  moreover have "sorted (map key_of es)" using es by (rule entries_of_Inr(1))
  ultimately show ?thesis by blast
qed

text \<open>
  The call raises only \<open>ValueError\<close>, and only when a row that passes the filter has
  an id column that \<open>isdigit\<close> accepts and \<open>int\<close> refuses (a superscript digit in it,
  or more digits than the limit).
\<close>

lemma update_main_readme_raises:
  assumes "fs root_readme = Some (File text) \<or> fs root_readme = None \<and> text = header_text"
    and "update_main_readme fs q url = (fs', Some e)"
  shows "e = ValueError \<and>
         (\<exists>l\<in>set (drop 4 (with_entry (read_lines text) (new_entry q url))).
            5 \<le> str_count l CHR ''|'' \<and>
            str_isdigit (str_strip (str_split CHR ''|'' l ! 1)) \<and>
            int_of_digits (str_strip (str_split CHR ''|'' l ! 1)) = Inl ValueError)"
proof -
  from assms have "entries_of (with_entry (read_lines text) (new_entry q url)) = Inl e"
    by (auto simp: update_absent update_present split: sum.splits)
  then show ?thesis by (rule entries_of_Inl)
qed

text \<open>
  C4. Take the text that the call reads (the document, or the header text when there is
  no document) and the lines made of it, the new row included. When every line after the
  fourth that holds at least five \<open>|\<close> has an id column that \<open>int\<close> accepts or
  \<open>isdigit\<close> refuses, the call rewrites the document: it writes the first four lines
  and then exactly the lines after the fourth that hold at least five \<open>|\<close>, each as
  often as it stood there, so a line with fewer is dropped and a line with five or more
  is kept. Every call that rewrites the document writes it so. In the remaining case the
  call raises \<open>ValueError\<close> and rewrites nothing.
\<close>

theorem update_main_readme_filters_rows:
  "(fs root_readme = Some (File text) \<or> fs root_readme = None \<and> text = header_text) \<longrightarrow>
   ((\<forall>l\<in>set (drop 4 (with_entry (read_lines text) (new_entry q url))).
       5 \<le> str_count l CHR ''|'' \<and> str_isdigit (str_strip (str_split CHR ''|'' l ! 1)) \<longrightarrow>
       int_of_digits (str_strip (str_split CHR ''|'' l ! 1)) \<noteq> Inl ValueError) \<longrightarrow>
    (\<exists>es. update_main_readme fs q url =
            (fs(root_readme \<mapsto> File (document_text
               (take 4 (with_entry (read_lines text) (new_entry q url)) @ es))), None) \<and>
          mset es = mset (filter (\<lambda>l. 5 \<le> str_count l CHR ''|'')
                      (drop 4 (with_entry (read_lines text) (new_entry q url)))))) \<and>
   (update_main_readme fs q url = (fs', None) \<longrightarrow>
    (\<exists>es. fs' root_readme = Some (File (document_text
             (take 4 (with_entry (read_lines text) (new_entry q url)) @ es))) \<and>
          mset es = mset (filter (\<lambda>l. 5 \<le> str_count l CHR ''|'')
                      (drop 4 (with_entry (read_lines text) (new_entry q url)))))) \<and>
   (\<not> (\<forall>l\<in>set (drop 4 (with_entry (read_lines text) (new_entry q url))).
         5 \<le> str_count l CHR ''|'' \<and> str_isdigit (str_strip (str_split CHR ''|'' l ! 1)) \<longrightarrow>
         int_of_digits (str_strip (str_split CHR ''|'' l ! 1)) \<noteq> Inl ValueError) \<longrightarrow>
    update_main_readme fs q url =
      (if fs root_readme = None then fs(root_readme \<mapsto> File header_text) else fs,
       Some ValueError))"
proof (intro impI conjI)
  let ?ls = "with_entry (read_lines text) (new_entry q url)"
  let ?P = "\<lambda>l. 5 \<le> str_count l CHR ''|''"
  assume reads: "fs root_readme = Some (File text) \<or> fs root_readme = None \<and> text = header_text"
  then have upd: "update_main_readme fs q url =
     (case rewritten text q url of
        Inl e \<Rightarrow> (if fs root_readme = None then fs(root_readme \<mapsto> File header_text) else fs,
                  Some e)
      | Inr doc \<Rightarrow> (fs(root_readme \<mapsto> File doc), None))"
    by (rule update_rewritten)
  {
    assume "\<forall>l\<in>set (drop 4 ?ls).
       5 \<le> str_count l CHR ''|'' \<and> str_isdigit (str_strip (str_split CHR ''|'' l ! 1)) \<longrightarrow>
       int_of_digits (str_strip (str_split CHR ''|'' l ! 1)) \<noteq> Inl ValueError"
    then obtain es where es: "entries_of ?ls = Inr es"
      using entries_of_total by blast
    then have "rewritten text q url = Inr (document_text (header_of ?ls @ es))"
      by (simp add: rewritten_def Let_def)
    with upd
    have "update_main_readme fs q url =
            (fs(root_readme \<mapsto> File (document_text (take 4 ?ls @ es))), None)"
      by (simp add: header_of_def)
    moreover have "mset es = mset (filter ?P (drop 4 ?ls))"
      using es by (rule entries_of_Inr(2))
    ultimately show "\<exists>es. update_main_readme fs q url =
            (fs(root_readme \<mapsto> File (document_text (take 4 ?ls @ es))), None) \<and>
          mset es = mset (filter ?P (drop 4 ?ls))"
      by blast
  }
  {
    assume "update_main_readme fs q url = (fs', None)"
    with reads obtain es where es: "entries_of ?ls = Inr es"
      and fs': "fs' = fs(root_readme \<mapsto> File (document_text (header_of ?ls @ es)))"
      using update_success by blast
    from fs' have "fs' root_readme = Some (File (document_text (take 4 ?ls @ es)))"
      by (simp add: header_of_def)
    moreover have "mset es = mset (filter ?P (drop 4 ?ls))"
      using es by (rule entries_of_Inr(2))
    ultimately show "\<exists>es. fs' root_readme = Some (File (document_text (take 4 ?ls @ es))) \<and>
          mset es = mset (filter ?P (drop 4 ?ls))"
      by blast
  }
  {
    assume "\<not> (\<forall>l\<in>set (drop 4 ?ls).
         5 \<le> str_count l CHR ''|'' \<and> str_isdigit (str_strip (str_split CHR ''|'' l ! 1)) \<longrightarrow>
         int_of_digits (str_strip (str_split CHR ''|'' l ! 1)) \<noteq> Inl ValueError)"
    then obtain l where "l \<in> set (drop 4 ?ls)" "5 \<le> str_count l CHR ''|''"
      "str_isdigit (str_strip (str_split CHR ''|'' l ! 1))"
      "int_of_digits (str_strip (str_split CHR ''|'' l ! 1)) = Inl ValueError"
      by blast
    then have "entries_of ?ls = Inl ValueError" by (rule entries_of_fails)
    then have "rewritten text q url = Inl ValueError"
      by (simp add: rewritten_def Let_def)
    with upd
    show "update_main_readme fs q url =
      (if fs root_readme = None then fs(root_readme \<mapsto> File header_text) else fs,
       Some ValueError)"
      by simp
  }
qed

lemma example_rows_accepted:
  "\<forall>l\<in>set (drop 4 (with_entry
       (read_lines (header_text @
          ''| 5 | a | b | c | d |\<newline>junk | x\<newline>| 2 | a | b | c | d |\<newline>''))
       (new_entry \<lparr>question_id = ''3'', question_title = ''T'', question_slug = ''s'',
          difficulty = ''Easy'', topic_tags = ''Array''\<rparr> ''u''))).
     5 \<le> str_count l CHR ''|'' \<and> str_isdigit (str_strip (str_split CHR ''|'' l ! 1)) \<longrightarrow>
     int_of_digits (str_strip (str_split CHR ''|'' l ! 1)) \<noteq> Inl ValueError"
  by code_simp

theorem update_main_readme_filters_rows_witness:
  "update_main_readme
     [root_readme \<mapsto> File (header_text @
        ''| 5 | a | b | c | d |\<newline>junk | x\<newline>| 2 | a | b | c | d |\<newline>'')]
     \<lparr>question_id = ''3'', question_title = ''T'', question_slug = ''s'',
      difficulty = ''Easy'', topic_tags = ''Array''\<rparr> ''u''
   = ([root_readme \<mapsto> File
        (''# Leetcode\<newline>### Leetcode Problem Index\<newline>'' @
         ''| # | Title | Solution | Tags | Difficulty |\<newline>'' @
         ''|:----:|:--------:|:--------:|:-------:|:----------:|\<newline>'' @
         ''| 2 | a | b | c | d |\<newline>'' @
         ''| 3 | [T](u) | [Python](problemset/3.s/s.py) | Array | Easy |\<newline>'' @
         ''| 5 | a | b | c | d |\<newline>'')], None) \<and>
   (\<exists>es. update_main_readme
          [root_readme \<mapsto> File (header_text @
             ''| 5 | a | b | c | d |\<newline>junk | x\<newline>| 2 | a | b | c | d |\<newline>'')]
          \<lparr>question_id = ''3'', question_title = ''T'', question_slug = ''s'',
           difficulty = ''Easy'', topic_tags = ''Array''\<rparr> ''u''
        = ([root_readme \<mapsto> File (document_text
              (take 4 (with_entry
                 (read_lines (header_text @
                    ''| 5 | a | b | c | d |\<newline>junk | x\<newline>| 2 | a | b | c | d |\<newline>''))
                 (new_entry \<lparr>question_id = ''3'', question_title = ''T'', question_slug = ''s'',
                    difficulty = ''Easy'', topic_tags = ''Array''\<rparr> ''u'')) @ es))], None) \<and>
        mset es = mset (filter (\<lambda>l. 5 \<le> str_count l CHR ''|'')
          (drop 4 (with_entry
             (read_lines (header_text @
                ''| 5 | a | b | c | d |\<newline>junk | x\<newline>| 2 | a | b | c | d |\<newline>''))
             (new_entry \<lparr>question_id = ''3'', question_title = ''T'', question_slug = ''s'',
                difficulty = ''Easy'', topic_tags = ''Array''\<rparr> ''u'')))))"
proof
  let ?doc = "header_text @
     ''| 5 | a | b | c | d |\<newline>junk | x\<newline>| 2 | a | b | c | d |\<newline>''"
  let ?q = "\<lparr>question_id = ''3'', question_title = ''T'', question_slug = ''s'',
      difficulty = ''Easy'', topic_tags = ''Array''\<rparr>"
  let ?fs = "[root_readme \<mapsto> File ?doc]"
  have present: "?fs root_readme = Some (File ?doc)" by simp
  from update_main_readme_filters_rows [of ?fs ?doc ?q "''u''"] present example_rows_accepted
  obtain es where run: "update_main_readme ?fs ?q ''u'' =
            (?fs(root_readme \<mapsto> File (document_text
               (take 4 (with_entry (read_lines ?doc) (new_entry ?q ''u'')) @ es))), None)"
    and es: "mset es = mset (filter (\<lambda>l. 5 \<le> str_count l CHR ''|'')
                      (drop 4 (with_entry (read_lines ?doc) (new_entry ?q ''u''))))"
    by blast
  from run have run': "update_main_readme ?fs ?q ''u'' =
            ([root_readme \<mapsto> File (document_text
               (take 4 (with_entry (read_lines ?doc) (new_entry ?q ''u'')) @ es))], None)"
    by (simp only: fun_upd_upd)
  with es show "\<exists>es. update_main_readme ?fs ?q ''u''
        = ([root_readme \<mapsto> File (document_text
              (take 4 (with_entry (read_lines ?doc) (new_entry ?q ''u'')) @ es))], None) \<and>
        mset es = mset (filter (\<lambda>l. 5 \<le> str_count l CHR ''|'')
          (drop 4 (with_entry (read_lines ?doc) (new_entry ?q ''u''))))"
    by blast
  have "update_main_readme ?fs ?q ''u'' =
     (case rewritten ?doc ?q ''u'' of
        Inl e \<Rightarrow> (if ?fs root_readme = None then ?fs(root_readme \<mapsto> File header_text) else ?fs,
                  Some e)
      | Inr doc \<Rightarrow> (?fs(root_readme \<mapsto> File doc), None))"
    using present by (intro update_rewritten) blast
  then show "update_main_readme ?fs ?q ''u'' =
     ([root_readme \<mapsto> File
          (''# Leetcode\<newline>### Leetcode Problem Index\<newline>'' @
           ''| # | Title | Solution | Tags | Difficulty |\<newline>'' @
           ''|:----:|:--------:|:--------:|:-------:|:----------:|\<newline>'' @
           ''| 2 | a | b | c | d |\<newline>'' @
           ''| 3 | [T](u) | [Python](problemset/3.s/s.py) | Array | Easy |\<newline>'' @
           ''| 5 | a | b | c | d |\<newline>'')], None)"
    by (simp only: example_rewritten sum.case fun_upd_upd)
qed

lemma example_superscript:
  "rewritten
     (header_text @ ''| 5 | a | b | c | d |\<newline>| 2 | a | b | c | d |\<newline>| '' @
      [CHR 0xB2] @ '' | a | b | c | d |\<newline>'')
     \<lparr>question_id = ''3'', question_title = ''T'', question_slug = ''s'',
      difficulty = ''Easy'', topic_tags = ''Array''\<rparr> ''u''
   = Inl ValueError"
  by code_simp

text \<open>
  C1 fails on the code. The document below holds the rows 5 and 2 and a row whose id
  column is the superscript digit two. \<open>isdigit\<close> accepts that column, \<open>int\<close> raises
  \<open>ValueError\<close> on it, and the call ends before it writes: the document is left as it
  was, its rows not in order and the row of id 3 not inserted.
\<close>

theorem update_main_readme_superscript_id:
  "update_main_readme
     [root_readme \<mapsto> File
        (header_text @ ''| 5 | a | b | c | d |\<newline>| 2 | a | b | c | d |\<newline>| '' @
         [CHR 0xB2] @ '' | a | b | c | d |\<newline>'')]
     \<lparr>question_id = ''3'', question_title = ''T'', question_slug = ''s'',
      difficulty = ''Easy'', topic_tags = ''Array''\<rparr> ''u''
   = ([root_readme \<mapsto> File
        (header_text @ ''| 5 | a | b | c | d |\<newline>| 2 | a | b | c | d |\<newline>| '' @
         [CHR 0xB2] @ '' | a | b | c | d |\<newline>'')],
      Some ValueError)"
proof -
  let ?doc = "header_text @ ''| 5 | a | b | c | d |\<newline>| 2 | a | b | c | d |\<newline>| '' @
         [CHR 0xB2] @ '' | a | b | c | d |\<newline>''"
  let ?q = "\<lparr>question_id = ''3'', question_title = ''T'', question_slug = ''s'',
      difficulty = ''Easy'', topic_tags = ''Array''\<rparr>"
  let ?fs = "[root_readme \<mapsto> File ?doc]"
  have present: "?fs root_readme = Some (File ?doc)" by simp
  have "update_main_readme ?fs ?q ''u'' =
     (case rewritten ?doc ?q ''u'' of
        Inl e \<Rightarrow> (if ?fs root_readme = None then ?fs(root_readme \<mapsto> File header_text) else ?fs,
                  Some e)
      | Inr doc \<Rightarrow> (?fs(root_readme \<mapsto> File doc), None))"
    using present by (intro update_rewritten) blast
  then show ?thesis
    by (simp only: example_superscript sum.case present) simp
qed

section \<open>Index updater: reading back what was written\<close>

lemma isspace_LF: "str_isspace (CHR 0x0A)"
  by (simp add: str_isspace_def)

lemma str_strip_subset: "set (str_strip s) \<subseteq> set s"
proof -
  have "set (str_strip s) \<subseteq> set (dropWhile str_isspace s)"
    unfolding str_strip_def by (metis set_rev set_dropWhileD subsetI)
  also have "\<dots> \<subseteq> set s" by (meson set_dropWhileD subsetI)
  finally show ?thesis .
qed

lemma str_strip_snoc_space:
  assumes "str_isspace c"
  shows "str_strip (b @ [c]) = str_strip b"
proof (cases "\<forall>x\<in>set b. str_isspace x")
  case True
  then have b0: "dropWhile str_isspace b = []"
    by (simp only: dropWhile_eq_Nil_conv)
  have "\<forall>x\<in>set (b @ [c]). str_isspace x" using True assms by simp
  then have "dropWhile str_isspace (b @ [c]) = []"
    by (simp only: dropWhile_eq_Nil_conv)
  with b0 show ?thesis by (simp only: str_strip_def)
next
  case False
  then have "dropWhile str_isspace (b @ [c]) = dropWhile str_isspace b @ [c]"
    by (auto simp: dropWhile_append1)
  then show ?thesis using assms by (simp add: str_strip_def)
qed

lemma str_strip_ends:
  assumes "str_strip s \<noteq> []"
  shows "\<not> str_isspace (hd (str_strip s))" and "\<not> str_isspace (last (str_strip s))"
proof -
  let ?d = "dropWhile str_isspace s"
  let ?e = "dropWhile str_isspace (rev ?d)"
  from assms have e: "?e \<noteq> []" by (simp add: str_strip_def)
  then have d: "?d \<noteq> []" by (auto dest: set_dropWhileD)
  have "last (str_strip s) = hd ?e"
    using e by (simp add: str_strip_def last_rev)
  then show "\<not> str_isspace (last (str_strip s))"
    using e hd_dropWhile by metis
  have "hd (str_strip s) = last ?e"
    using e by (simp add: str_strip_def hd_rev)
  also have "\<dots> = last (rev ?d)"
    using e by (metis append_Nil2 last_appendR takeWhile_dropWhile_id)
  also have "\<dots> = hd ?d" using d by (simp add: last_rev)
  finally show "\<not> str_isspace (hd (str_strip s))"
    using d hd_dropWhile by metis
qed

lemma str_strip_clean:
  assumes "clean_line l"
  shows "str_strip l = l"
proof -
  from assms have l: "l \<noteq> []" "\<not> str_isspace (hd l)" "\<not> str_isspace (last l)"
    by (simp_all add: clean_line_def)
  then have 1: "dropWhile str_isspace l = l" by (cases l) auto
  from l have "rev l \<noteq> []" "\<not> str_isspace (hd (rev l))" by (simp_all add: hd_rev)
  then have 2: "dropWhile str_isspace (rev l) = rev l" by (cases "rev l") auto
  show ?thesis by (simp add: str_strip_def 1 2)
qed

lemma universal_newlines_id:
  "CHR 0x0D \<notin> set t \<Longrightarrow> universal_newlines t = t"
  by (induction t rule: universal_newlines.induct) auto

lemma universal_newlines_no_CR: "CHR 0x0D \<notin> set (universal_newlines t)"
  by (induction t rule: universal_newlines.induct) auto

lemma readlines_line:
  "CHR 0x0A \<notin> set l \<Longrightarrow> readlines (l @ CHR 0x0A # rest) = (l @ [CHR 0x0A]) # readlines rest"
  by (induction l) auto

lemma readlines_elem:
  "x \<in> set (readlines t) \<Longrightarrow> x \<noteq> [] \<and> CHR 0x0A \<notin> set (butlast x) \<and> set x \<subseteq> set t"
proof (induction t arbitrary: x)
  case Nil
  then show ?case by simp
next
  case (Cons c cs)
  show ?case
  proof (cases "c = CHR 0x0A")
    case True
    with Cons.prems have "x = [c] \<or> x \<in> set (readlines cs)" by auto
    then show ?thesis using Cons.IH by auto
  next
    case False
    show ?thesis
    proof (cases "readlines cs")
      case Nil
      with False Cons.prems have "x = [c]" by simp
      then show ?thesis using False by simp
    next
      case (Cons l ls)
      with False Cons.prems have "x = c # l \<or> x \<in> set ls" by auto
      then show ?thesis
      proof
        assume x: "x = c # l"
        have "l \<in> set (readlines cs)" using Cons by simp
        then have "l \<noteq> [] \<and> CHR 0x0A \<notin> set (butlast l) \<and> set l \<subseteq> set cs"
          using Cons.IH by blast
        then show ?thesis using x False by auto
      next
        assume "x \<in> set ls"
        then have "x \<in> set (readlines cs)" using Cons by simp
        then show ?thesis using Cons.IH by auto
      qed
    qed
  qed
qed

lemma read_lines_clean:
  assumes "l \<in> set (read_lines text)"
  shows "clean_line l"
proof -
  from assms obtain x where x: "x \<in> set (readlines (universal_newlines text))"
    and l: "l = str_strip x" and ne: "str_strip x \<noteq> []"
    by (auto simp: read_lines_def)
  from readlines_elem [OF x]
  have x1: "x \<noteq> []" and x2: "CHR 0x0A \<notin> set (butlast x)"
    and x3: "set x \<subseteq> set (universal_newlines text)" by blast+
  from x3 have cr: "CHR 0x0D \<notin> set x" using universal_newlines_no_CR by blast
  have lf: "CHR 0x0A \<notin> set (str_strip x)"
  proof (cases "last x = CHR 0x0A")
    case True
    with x1 have "x = butlast x @ [CHR 0x0A]" by (metis append_butlast_last_id)
    then have "str_strip x = str_strip (butlast x)"
      using str_strip_snoc_space [OF isspace_LF, of "butlast x"] by simp
    then show ?thesis using x2 str_strip_subset [of "butlast x"] by auto
  next
    case False
    with x1 x2 have "CHR 0x0A \<notin> set x"
      by (metis append_butlast_last_id in_set_conv_decomp_last last_snoc butlast_snoc
          set_ConsD set_append Un_iff list.set(1) empty_iff)
    then show ?thesis using str_strip_subset [of x] by auto
  qed
  from cr have "CHR 0x0D \<notin> set (str_strip x)" using str_strip_subset [of x] by auto
  with lf ne str_strip_ends [OF ne] show ?thesis by (simp add: clean_line_def l)
qed

lemma document_text_unlines:
  "ls \<noteq> [] \<Longrightarrow> document_text ls = concat (map (\<lambda>l. l @ [CHR 0x0A]) ls)"
  unfolding document_text_def
  by (induction "''\<newline>''" ls rule: str_join.induct) auto

lemma readlines_unlines:
  "\<forall>l\<in>set ls. CHR 0x0A \<notin> set l \<Longrightarrow>
   readlines (concat (map (\<lambda>l. l @ [CHR 0x0A]) ls)) = map (\<lambda>l. l @ [CHR 0x0A]) ls"
  by (induction ls) (simp_all add: readlines_line)

lemma str_strip_line:
  assumes "clean_line l"
  shows "str_strip (l @ [CHR 0x0A]) = l"
  using str_strip_snoc_space [OF isspace_LF, of l] str_strip_clean [OF assms] by simp

lemma read_lines_document_text:
  assumes "\<forall>l\<in>set ls. clean_line l"
  shows "read_lines (document_text ls) = ls"
proof (cases "ls = []")
  case True
  have "read_lines ''\<newline>'' = []" by code_simp
  with True show ?thesis by (simp add: document_text_def)
next
  case False
  let ?t = "concat (map (\<lambda>l. l @ [CHR 0x0A]) ls)"
  have t: "document_text ls = ?t" using False by (rule document_text_unlines)
  have "CHR 0x0D \<notin> set ?t" using assms by (auto simp: clean_line_def)
  then have u: "universal_newlines ?t = ?t" by (rule universal_newlines_id)
  have r: "readlines ?t = map (\<lambda>l. l @ [CHR 0x0A]) ls"
    using assms by (intro readlines_unlines) (auto simp: clean_line_def)
  have s: "\<forall>l\<in>set ls. str_strip (l @ [CHR 0x0A]) = l"
    using assms str_strip_line by blast
  have ne: "\<forall>l\<in>set ls. l \<noteq> []" using assms by (auto simp: clean_line_def)
  have "filter (\<lambda>line. str_strip line \<noteq> []) (map (\<lambda>l. l @ [CHR 0x0A]) ls)
          = map (\<lambda>l. l @ [CHR 0x0A]) ls"
    using s ne by (simp add: filter_id_conv)
  moreover have "map str_strip (map (\<lambda>l. l @ [CHR 0x0A]) ls) = ls"
    using s by (simp add: map_idI)
  ultimately show ?thesis by (simp add: read_lines_def t u r)
qed

section \<open>Index updater: applying the update twice\<close>

lemma str_count_append: "str_count (a @ b) c = str_count a c + str_count b c"
  by (simp add: str_count_def)

lemma new_entry_count: "5 \<le> str_count (new_entry q url) CHR ''|''"
  by (simp add: new_entry_def Let_def str_count_append) (simp add: str_count_def)

lemma new_entry_clean:
  assumes "\<forall>c\<in>set (new_entry q url). c \<noteq> CHR 0x0A \<and> c \<noteq> CHR 0x0D"
  shows "clean_line (new_entry q url)"
proof -
  have "\<exists>body. new_entry q url = CHR ''|'' # body @ [CHR ''|'']"
    by (simp add: new_entry_def Let_def)
  then obtain body where b: "new_entry q url = CHR ''|'' # body @ [CHR ''|'']" by blast
  have "\<not> str_isspace CHR ''|''" by (simp add: str_isspace_def)
  then have "new_entry q url \<noteq> [] \<and> \<not> str_isspace (hd (new_entry q url)) \<and>
        \<not> str_isspace (last (new_entry q url))"
    by (simp add: b)
  with assms show ?thesis unfolding clean_line_def by blast
qed

lemma with_entry_mem: "e \<in> set (with_entry ls e)"
  by (simp add: with_entry_def)

lemma with_entry_set: "set (with_entry ls e) = insert e (set ls)"
  by (auto simp: with_entry_def)

lemma with_entry_present: "e \<in> set ls \<Longrightarrow> with_entry ls e = ls"
  by (simp add: with_entry_def)

lemma rewritten_fixed:
  assumes clean: "\<forall>c\<in>set (new_entry q url). c \<noteq> CHR 0x0A \<and> c \<noteq> CHR 0x0D"
    and first: "rewritten text q url = Inr doc"
  shows "rewritten doc q url = Inr doc"
proof -
  let ?e = "new_entry q url"
  let ?ls = "with_entry (read_lines text) ?e"
  let ?P = "\<lambda>l. 5 \<le> str_count l CHR ''|''"
  from first obtain es where es: "entries_of ?ls = Inr es"
    and doc: "doc = document_text (header_of ?ls @ es)"
    by (auto simp: rewritten_def Let_def split: sum.splits)
  let ?out = "header_of ?ls @ es"
  have mset_es: "mset es = mset (filter ?P (drop 4 ?ls))"
    using es by (rule entries_of_Inr(2))
  then have set_es: "set es = set (filter ?P (drop 4 ?ls))"
    by (metis set_mset_mset)
  have ls_clean: "\<forall>l\<in>set ?ls. clean_line l"
    using read_lines_clean new_entry_clean [OF clean] by (auto simp: with_entry_set)
  have "set ?out \<subseteq> set ?ls"
    using set_es by (auto simp: header_of_def dest: in_set_takeD in_set_dropD)
  with ls_clean have out_clean: "\<forall>l\<in>set ?out. clean_line l" by blast
  then have reread: "read_lines doc = ?out"
    unfolding doc by (rule read_lines_document_text)
  have "?e \<in> set (take 4 ?ls) \<or> ?e \<in> set (drop 4 ?ls)"
    using with_entry_mem [of ?e "read_lines text"]
    by (metis Un_iff append_take_drop_id set_append)
  then have "?e \<in> set ?out"
    using new_entry_count [of q url] set_es by (auto simp: header_of_def)
  then have again: "with_entry ?out ?e = ?out" by (rule with_entry_present)
  have cut: "header_of ?out = header_of ?ls \<and> drop 4 ?out = es"
  proof (cases "4 \<le> length ?ls")
    case True
    then show ?thesis by (simp add: header_of_def)
  next
    case False
    then have "length ?ls \<le> 4" by simp
    then have "entries_of ?ls = Inr []" by (rule entries_of_short)
    with es have "es = []" by simp
    with False show ?thesis by (simp add: header_of_def)
  qed
  have "filter ?P es = es"
    using set_es by (simp add: filter_id_conv)
  moreover have "list_sort es = Inr es"
    using es list_sort_again unfolding entries_of_def by blast
  ultimately have eo: "entries_of ?out = Inr es"
    using cut by (simp add: entries_of_def)
  have w: "with_entry (read_lines doc) ?e = ?out"
    by (simp only: reread again)
  from cut have ho: "header_of ?out = header_of ?ls" by blast
  have "rewritten doc q url = Inr (document_text (header_of ?ls @ es))"
    unfolding rewritten_def Let_def w eo ho by simp
  then show ?thesis by (simp only: doc)
qed

text \<open>
  C3, as amended. The new row is appended only when no line read equals it. When the row
  holds no line break, the file system after two calls with the same record and URL is
  the file system after one: the row is not written a second time. This holds whether
  or not a call raises.
\<close>

theorem update_main_readme_idempotent:
  "(new_entry q url \<in> set ls \<longrightarrow> with_entry ls (new_entry q url) = ls) \<and>
   (new_entry q url \<notin> set ls \<longrightarrow> with_entry ls (new_entry q url) = ls @ [new_entry q url]) \<and>
   ((\<forall>c\<in>set (new_entry q url). c \<noteq> CHR 0x0A \<and> c \<noteq> CHR 0x0D) \<longrightarrow>
      fst (update_main_readme (fst (update_main_readme fs q url)) q url)
        = fst (update_main_readme fs q url))"
proof (intro conjI impI)
  show "new_entry q url \<in> set ls \<Longrightarrow> with_entry ls (new_entry q url) = ls"
    by (simp add: with_entry_def)
  show "new_entry q url \<notin> set ls \<Longrightarrow> with_entry ls (new_entry q url) = ls @ [new_entry q url]"
    by (simp add: with_entry_def)
next
  assume clean: "\<forall>c\<in>set (new_entry q url). c \<noteq> CHR 0x0A \<and> c \<noteq> CHR 0x0D"
  show "fst (update_main_readme (fst (update_main_readme fs q url)) q url)
        = fst (update_main_readme fs q url)"
  proof (cases "fs root_readme")
    case None
    show ?thesis
    proof (cases "rewritten header_text q url")
      case (Inl e)
      with None have 1: "update_main_readme fs q url
          = (fs(root_readme \<mapsto> File header_text), Some e)"
        by (simp add: update_rewritten [of fs header_text])
      have "update_main_readme (fs(root_readme \<mapsto> File header_text)) q url
          = (fs(root_readme \<mapsto> File header_text), Some e)"
        using Inl by (simp add: update_rewritten [of _ header_text])
      with 1 show ?thesis by simp
    next
      case (Inr doc)
      with None have 1: "update_main_readme fs q url = (fs(root_readme \<mapsto> File doc), None)"
        by (simp add: update_rewritten [of fs header_text])
      have "rewritten doc q url = Inr doc" using clean Inr by (rule rewritten_fixed)
      then have "update_main_readme (fs(root_readme \<mapsto> File doc)) q url
          = (fs(root_readme \<mapsto> File doc), None)"
        by (simp add: update_rewritten [of _ doc])
      with 1 show ?thesis by simp
    qed
  next
    case (Some n)
    show ?thesis
    proof (cases n)
      case Dir
      with Some show ?thesis by (simp add: update_directory)
    next
      case (File t)
      show ?thesis
      proof (cases "rewritten t q url")
        case (Inl e)
        with Some File have "update_main_readme fs q url = (fs, Some e)"
          by (simp add: update_rewritten [of fs t])
        then show ?thesis by simp
      next
        case (Inr doc)
        with Some File have 1: "update_main_readme fs q url = (fs(root_readme \<mapsto> File doc), None)"
          by (simp add: update_rewritten [of fs t])
        have "rewritten doc q url = Inr doc" using clean Inr by (rule rewritten_fixed)
        then have "update_main_readme (fs(root_readme \<mapsto> File doc)) q url
            = (fs(root_readme \<mapsto> File doc), None)"
          by (simp add: update_rewritten [of _ doc])
        with 1 show ?thesis by simp
      qed
    qed
  qed
qed

lemma example_row_no_break:
  "\<forall>c\<in>set (new_entry \<lparr>question_id = ''1'', question_title = ''Two Sum'',
        question_slug = ''two-sum'', difficulty = ''Easy'',
        topic_tags = ''Array, Hash Table''\<rparr> ''https://leetcode.com/problems/two-sum/'').
     c \<noteq> CHR 0x0A \<and> c \<noteq> CHR 0x0D"
  by code_simp

theorem update_main_readme_idempotent_witness:
  "fst (update_main_readme
         (fst (update_main_readme Map.empty
            \<lparr>question_id = ''1'', question_title = ''Two Sum'', question_slug = ''two-sum'',
             difficulty = ''Easy'', topic_tags = ''Array, Hash Table''\<rparr>
            ''https://leetcode.com/problems/two-sum/''))
         \<lparr>question_id = ''1'', question_title = ''Two Sum'', question_slug = ''two-sum'',
          difficulty = ''Easy'', topic_tags = ''Array, Hash Table''\<rparr>
         ''https://leetcode.com/problems/two-sum/'')
   = fst (update_main_readme Map.empty
            \<lparr>question_id = ''1'', question_title = ''Two Sum'', question_slug = ''two-sum'',
             difficulty = ''Easy'', topic_tags = ''Array, Hash Table''\<rparr>
            ''https://leetcode.com/problems/two-sum/'') \<and>
   with_entry [new_entry \<lparr>question_id = ''1'', question_title = ''Two Sum'',
        question_slug = ''two-sum'', difficulty = ''Easy'',
        topic_tags = ''Array, Hash Table''\<rparr> ''https://leetcode.com/problems/two-sum/'']
     (new_entry \<lparr>question_id = ''1'', question_title = ''Two Sum'',
        question_slug = ''two-sum'', difficulty = ''Easy'',
        topic_tags = ''Array, Hash Table''\<rparr> ''https://leetcode.com/problems/two-sum/'')
   = [new_entry \<lparr>question_id = ''1'', question_title = ''Two Sum'',
        question_slug = ''two-sum'', difficulty = ''Easy'',
        topic_tags = ''Array, Hash Table''\<rparr> ''https://leetcode.com/problems/two-sum/''] \<and>
   with_entry []
     (new_entry \<lparr>question_id = ''1'', question_title = ''Two Sum'',
        question_slug = ''two-sum'', difficulty = ''Easy'',
        topic_tags = ''Array, Hash Table''\<rparr> ''https://leetcode.com/problems/two-sum/'')
   = [new_entry \<lparr>question_id = ''1'', question_title = ''Two Sum'',
        question_slug = ''two-sum'', difficulty = ''Easy'',
        topic_tags = ''Array, Hash Table''\<rparr> ''https://leetcode.com/problems/two-sum/'']"
proof -
  let ?q = "\<lparr>question_id = ''1'', question_title = ''Two Sum'', question_slug = ''two-sum'',
             difficulty = ''Easy'', topic_tags = ''Array, Hash Table''\<rparr>"
  let ?u = "''https://leetcode.com/problems/two-sum/''"
  have 1: "fst (update_main_readme (fst (update_main_readme Map.empty ?q ?u)) ?q ?u)
             = fst (update_main_readme Map.empty ?q ?u)"
    using update_main_readme_idempotent [of ?q ?u "[]" Map.empty] example_row_no_break
    by blast
  have 2: "with_entry [new_entry ?q ?u] (new_entry ?q ?u) = [new_entry ?q ?u]"
    using update_main_readme_idempotent [of ?q ?u "[new_entry ?q ?u]" Map.empty] by simp
  have 3: "with_entry [] (new_entry ?q ?u) = [new_entry ?q ?u]"
    using update_main_readme_idempotent [of ?q ?u "[]" Map.empty] by simp
  from 1 2 3 show ?thesis by blast
qed

lemma example_break_once:
  "rewritten header_text
     \<lparr>question_id = ''1'', question_title = ''T'', question_slug = ''s'',
      difficulty = ''Easy\<newline>x'', topic_tags = ''Array''\<rparr> ''u''
   = Inr ''# Leetcode\<newline>### Leetcode Problem Index\<newline>| # | Title | Solution | Tags | Difficulty |\<newline>|:----:|:--------:|:--------:|:-------:|:----------:|\<newline>| 1 | [T](u) | [Python](problemset/1.s/s.py) | Array | Easy\<newline>x |\<newline>''"
  by code_simp

lemma example_break_twice:
  "rewritten ''# Leetcode\<newline>### Leetcode Problem Index\<newline>| # | Title | Solution | Tags | Difficulty |\<newline>|:----:|:--------:|:--------:|:-------:|:----------:|\<newline>| 1 | [T](u) | [Python](problemset/1.s/s.py) | Array | Easy\<newline>x |\<newline>''
     \<lparr>question_id = ''1'', question_title = ''T'', question_slug = ''s'',
      difficulty = ''Easy\<newline>x'', topic_tags = ''Array''\<rparr> ''u''
   = Inr ''# Leetcode\<newline>### Leetcode Problem Index\<newline>| # | Title | Solution | Tags | Difficulty |\<newline>|:----:|:--------:|:--------:|:-------:|:----------:|\<newline>| 1 | [T](u) | [Python](problemset/1.s/s.py) | Array | Easy\<newline>| 1 | [T](u) | [Python](problemset/1.s/s.py) | Array | Easy\<newline>x |\<newline>''"
  by code_simp

text \<open>
  C3 as stated fails: with a line break in a field of the record, the row is written as
  two lines, neither of which equals the row when the document is read again, so the
  second call appends the row once more. After one call the document holds the line
  that ends in \<open>Easy\<close> once, after two calls twice.
\<close>

theorem update_main_readme_line_break_twice:
  "fst (update_main_readme
         (fst (update_main_readme Map.empty
            \<lparr>question_id = ''1'', question_title = ''T'', question_slug = ''s'',
             difficulty = ''Easy\<newline>x'', topic_tags = ''Array''\<rparr> ''u''))
         \<lparr>question_id = ''1'', question_title = ''T'', question_slug = ''s'',
          difficulty = ''Easy\<newline>x'', topic_tags = ''Array''\<rparr> ''u'')
   \<noteq> fst (update_main_readme Map.empty
            \<lparr>question_id = ''1'', question_title = ''T'', question_slug = ''s'',
             difficulty = ''Easy\<newline>x'', topic_tags = ''Array''\<rparr> ''u'')"
proof -
  let ?q = "\<lparr>question_id = ''1'', question_title = ''T'', question_slug = ''s'',
             difficulty = ''Easy\<newline>x'', topic_tags = ''Array''\<rparr>"
  let ?d1 = "''# Leetcode\<newline>### Leetcode Problem Index\<newline>| # | Title | Solution | Tags | Difficulty |\<newline>|:----:|:--------:|:--------:|:-------:|:----------:|\<newline>| 1 | [T](u) | [Python](problemset/1.s/s.py) | Array | Easy\<newline>x |\<newline>''"
  let ?d2 = "''# Leetcode\<newline>### Leetcode Problem Index\<newline>| # | Title | Solution | Tags | Difficulty |\<newline>|:----:|:--------:|:--------:|:-------:|:----------:|\<newline>| 1 | [T](u) | [Python](problemset/1.s/s.py) | Array | Easy\<newline>| 1 | [T](u) | [Python](problemset/1.s/s.py) | Array | Easy\<newline>x |\<newline>''"
  have 1: "update_main_readme Map.empty ?q ''u'' = ([root_readme \<mapsto> File ?d1], None)"
    using update_rewritten [of Map.empty header_text ?q "''u''"]
    by (simp only: example_break_once sum.case) simp
  have 2: "update_main_readme [root_readme \<mapsto> File ?d1] ?q ''u''
             = ([root_readme \<mapsto> File ?d2], None)"
    using update_rewritten [of "[root_readme \<mapsto> File ?d1]" ?d1 ?q "''u''"]
    by (simp only: example_break_twice sum.case) simp
  have "[root_readme \<mapsto> File ?d2] root_readme \<noteq> [root_readme \<mapsto> File ?d1] root_readme"
    by simp
  then have ne: "[root_readme \<mapsto> File ?d2] \<noteq> [root_readme \<mapsto> File ?d1]"
    by metis
  show ?thesis unfolding 1 fst_conv 2 by (rule ne)
qed

section \<open>Directory scaffolder\<close>

lemma ensure_dirs_keeps:
  "ensure_dirs fs ds = (fs1, e) \<Longrightarrow> fs p = Some n \<Longrightarrow> fs1 p = Some n"
proof (induction ds arbitrary: fs)
  case Nil
  then show ?case by simp
next
  case (Cons d ds)
  show ?case
  proof (cases "fs d")
    case None
    with Cons.prems have "ensure_dirs (fs(d \<mapsto> Dir)) ds = (fs1, e)" by simp
    moreover from None Cons.prems(2) have "(fs(d \<mapsto> Dir)) p = Some n" by auto
    ultimately show ?thesis by (rule Cons.IH)
  next
    case (Some m)
    with Cons.prems Cons.IH show ?thesis by (cases m) auto
  qed
qed

lemma ensure_dirs_all:
  "\<forall>d\<in>set ds. fs d = Some Dir \<Longrightarrow> ensure_dirs fs ds = (fs, None)"
  by (induction ds) auto

lemma ensure_dirs_made:
  "ensure_dirs fs ds = (fs1, None) \<Longrightarrow> \<forall>d\<in>set ds. fs1 d = Some Dir"
proof (induction ds arbitrary: fs)
  case Nil
  then show ?case by simp
next
  case (Cons d ds)
  show ?case
  proof (cases "fs d")
    case None
    with Cons.prems have r: "ensure_dirs (fs(d \<mapsto> Dir)) ds = (fs1, None)" by simp
    then have "\<forall>x\<in>set ds. fs1 x = Some Dir" by (rule Cons.IH)
    moreover have "fs1 d = Some Dir" using ensure_dirs_keeps [OF r, of d Dir] by simp
    ultimately show ?thesis by simp
  next
    case (Some m)
    show ?thesis
    proof (cases m)
      case Dir
      with Some Cons.prems have r: "ensure_dirs fs ds = (fs1, None)" by simp
      then have "\<forall>x\<in>set ds. fs1 x = Some Dir" by (rule Cons.IH)
      moreover have "fs1 d = Some Dir" using ensure_dirs_keeps [OF r, of d Dir] Some Dir by simp
      ultimately show ?thesis by simp
    next
      case (File x)
      with Some Cons.prems show ?thesis by simp
    qed
  qed
qed

lemma ensure_dirs_again:
  "ensure_dirs fs ds = (fs1, e) \<Longrightarrow> ensure_dirs fs1 ds = (fs1, e)"
proof (induction ds arbitrary: fs)
  case Nil
  then show ?case by simp
next
  case (Cons d ds)
  show ?case
  proof (cases "fs d")
    case None
    with Cons.prems have r: "ensure_dirs (fs(d \<mapsto> Dir)) ds = (fs1, e)" by simp
    then have "ensure_dirs fs1 ds = (fs1, e)" by (rule Cons.IH)
    moreover have "fs1 d = Some Dir" using ensure_dirs_keeps [OF r, of d Dir] by simp
    ultimately show ?thesis by simp
  next
    case (Some m)
    show ?thesis
    proof (cases m)
      case Dir
      with Some Cons.prems have r: "ensure_dirs fs ds = (fs1, e)" by simp
      then have "ensure_dirs fs1 ds = (fs1, e)" by (rule Cons.IH)
      moreover have "fs1 d = Some Dir" using ensure_dirs_keeps [OF r, of d Dir] Some Dir by simp
      ultimately show ?thesis by simp
    next
      case (File x)
      with Some Cons.prems show ?thesis by auto
    qed
  qed
qed

lemma open_write_cases:
  "open_write fs p t = (fs1, e) \<Longrightarrow>
   (e = None \<and> fs1 = fs(p \<mapsto> File t)) \<or>
   (e \<noteq> None \<and> fs1 = fs \<and> (\<forall>t'. open_write fs p t' = (fs, e)))"
  by (auto simp: open_write_def split: option.splits node.splits)

lemma write_if_absent_cases:
  assumes "(if \<not> path_exists fs p then open_write fs p t else (fs, None)) = (fs1, e)"
  shows "(e = None \<and> path_exists fs1 p \<and> (\<forall>q n. fs q = Some n \<longrightarrow> fs1 q = Some n)) \<or>
         (e \<noteq> None \<and> fs1 = fs \<and> \<not> path_exists fs p \<and> (\<forall>t'. open_write fs p t' = (fs, e)))"
proof (cases "path_exists fs p")
  case True
  with assms show ?thesis by auto
next
  case False
  with assms have "open_write fs p t = (fs1, e)" by simp
  from open_write_cases [OF this] False show ?thesis
    by (auto simp: path_exists_def)
qed

lemma setup_problem_directory_unfold:
  "setup_problem_directory now fs i s t =
     (case makedirs fs (path_join base_directory (i @ ''.'' @ s)) of
        (fs1, Some e) \<Rightarrow> (fs1, Some e)
      | (fs1, None) \<Rightarrow>
          (case (if \<not> path_exists fs1 (path_join (path_join base_directory (i @ ''.'' @ s)) ''README.md'')
                 then open_write fs1
                        (path_join (path_join base_directory (i @ ''.'' @ s)) ''README.md'') []
                 else (fs1, None)) of
             (fs2, Some e) \<Rightarrow> (fs2, Some e)
           | (fs2, None) \<Rightarrow>
               (if \<not> path_exists fs2 (path_join (path_join base_directory (i @ ''.'' @ s)) (s @ ''.py''))
                then open_write fs2
                       (path_join (path_join base_directory (i @ ''.'' @ s)) (s @ ''.py''))
                       (generate_solution_metadata now t)
                else (fs2, None))))"
  by (simp only: setup_problem_directory_def Let_def)

lemma setup_problem_directory_again:
  "setup_problem_directory now' (fst (setup_problem_directory now fs i s t)) i s t
     = setup_problem_directory now fs i s t"
proof -
  let ?P = "path_join base_directory (i @ ''.'' @ s)"
  let ?R = "path_join ?P ''README.md''"
  let ?S = "path_join ?P (s @ ''.py'')"
  obtain fs1 e1 where m: "makedirs fs ?P = (fs1, e1)" by (cases "makedirs fs ?P") auto
  then have m': "makedirs fs1 ?P = (fs1, e1)"
    unfolding makedirs_def by (rule ensure_dirs_again)
  show ?thesis
  proof (cases e1)
    case (Some e)
    then have "setup_problem_directory now fs i s t = (fs1, Some e)"
      by (simp only: setup_problem_directory_unfold m prod.case option.case if_True if_False simp_thms fst_conv)
    moreover have "setup_problem_directory now' fs1 i s t = (fs1, Some e)"
      using Some by (simp only: setup_problem_directory_unfold m' prod.case option.case if_True if_False simp_thms fst_conv)
    ultimately show ?thesis by simp
  next
    case None
    with m have dirs: "\<forall>d\<in>set (path_prefixes ?P). fs1 d = Some Dir"
      unfolding makedirs_def by (auto dest: ensure_dirs_made)
    obtain fs2 e2 where r:
      "(if \<not> path_exists fs1 ?R then open_write fs1 ?R [] else (fs1, None)) = (fs2, e2)"
      by (cases "if \<not> path_exists fs1 ?R then open_write fs1 ?R [] else (fs1, None)") auto
    show ?thesis
    proof (cases e2)
      case (Some e)
      with write_if_absent_cases [OF r]
      have same: "fs2 = fs1" and "\<not> path_exists fs1 ?R" and "open_write fs1 ?R [] = (fs1, Some e)"
        by auto
      then have "setup_problem_directory now fs i s t = (fs1, Some e)"
        using None by (simp only: setup_problem_directory_unfold m prod.case option.case if_True if_False simp_thms fst_conv)
      moreover have "setup_problem_directory now' fs1 i s t = (fs1, Some e)"
        using None \<open>\<not> path_exists fs1 ?R\<close> \<open>open_write fs1 ?R [] = (fs1, Some e)\<close>
        by (simp only: setup_problem_directory_unfold m' prod.case option.case if_True if_False simp_thms fst_conv)
      ultimately show ?thesis by simp
    next
      case e2: None
      with write_if_absent_cases [OF r]
      have r_ex: "path_exists fs2 ?R" and keep2: "\<forall>q n. fs1 q = Some n \<longrightarrow> fs2 q = Some n"
        by auto
      from dirs keep2 have "\<forall>d\<in>set (path_prefixes ?P). fs2 d = Some Dir" by blast
      then have m2: "makedirs fs2 ?P = (fs2, None)"
        unfolding makedirs_def by (rule ensure_dirs_all)
      obtain fs3 e3 where w:
        "(if \<not> path_exists fs2 ?S then open_write fs2 ?S (generate_solution_metadata now t)
          else (fs2, None)) = (fs3, e3)"
        by (cases "if \<not> path_exists fs2 ?S
                   then open_write fs2 ?S (generate_solution_metadata now t)
                   else (fs2, None)") auto
      have first: "setup_problem_directory now fs i s t = (fs3, e3)"
        using None e2 r w by (simp only: setup_problem_directory_unfold m prod.case option.case if_True if_False simp_thms fst_conv)
      show ?thesis
      proof (cases e3)
        case (Some e)
        with write_if_absent_cases [OF w]
        have "fs3 = fs2" and "\<not> path_exists fs2 ?S"
          and "open_write fs2 ?S (generate_solution_metadata now' t) = (fs2, Some e)"
          by auto
        then have "setup_problem_directory now' fs3 i s t = (fs3, Some e)"
          using r_ex by (simp only: setup_problem_directory_unfold m2 prod.case option.case if_True if_False simp_thms fst_conv)
        with first Some show ?thesis by simp
      next
        case e3: None
        with write_if_absent_cases [OF w]
        have s_ex: "path_exists fs3 ?S" and keep3: "\<forall>q n. fs2 q = Some n \<longrightarrow> fs3 q = Some n"
          by auto
        from \<open>\<forall>d\<in>set (path_prefixes ?P). fs2 d = Some Dir\<close> keep3
        have "\<forall>d\<in>set (path_prefixes ?P). fs3 d = Some Dir" by blast
        then have m3: "makedirs fs3 ?P = (fs3, None)"
          unfolding makedirs_def by (rule ensure_dirs_all)
        from r_ex keep3 have "path_exists fs3 ?R" by (auto simp: path_exists_def)
        with s_ex have "setup_problem_directory now' fs3 i s t = (fs3, None)"
          by (simp only: setup_problem_directory_unfold m3 prod.case option.case if_True if_False simp_thms fst_conv)
        with first e3 show ?thesis by simp
      qed
    qed
  qed
qed

lemma setup_problem_directory_keeps:
  assumes "fs p = Some n"
  shows "fst (setup_problem_directory now fs i s t) p = Some n"
proof -
  let ?P = "path_join base_directory (i @ ''.'' @ s)"
  let ?R = "path_join ?P ''README.md''"
  let ?S = "path_join ?P (s @ ''.py'')"
  obtain fs1 e1 where m: "makedirs fs ?P = (fs1, e1)" by (cases "makedirs fs ?P") auto
  then have k1: "fs1 p = Some n"
    unfolding makedirs_def using assms by (rule ensure_dirs_keeps)
  show ?thesis
  proof (cases e1)
    case (Some e)
    then show ?thesis using k1 by (simp only: setup_problem_directory_unfold m prod.case option.case if_True if_False simp_thms fst_conv)
  next
    case None
    obtain fs2 e2 where r:
      "(if \<not> path_exists fs1 ?R then open_write fs1 ?R [] else (fs1, None)) = (fs2, e2)"
      by (cases "if \<not> path_exists fs1 ?R then open_write fs1 ?R [] else (fs1, None)") auto
    from write_if_absent_cases [OF r] k1 have k2: "fs2 p = Some n" by auto
    show ?thesis
    proof (cases e2)
      case (Some e)
      then show ?thesis using None r k2 by (simp only: setup_problem_directory_unfold m prod.case option.case if_True if_False simp_thms fst_conv)
    next
      case e2: None
      obtain fs3 e3 where w:
        "(if \<not> path_exists fs2 ?S then open_write fs2 ?S (generate_solution_metadata now t)
          else (fs2, None)) = (fs3, e3)"
        by (cases "if \<not> path_exists fs2 ?S
                   then open_write fs2 ?S (generate_solution_metadata now t)
                   else (fs2, None)") auto
      from write_if_absent_cases [OF w] k2 have "fs3 p = Some n" by auto
      then show ?thesis using None e2 r w by (simp only: setup_problem_directory_unfold m prod.case option.case if_True if_False simp_thms fst_conv)
    qed
  qed
qed

text \<open>
  C8. A second call for the same id, slug and title, at whatever later time, changes
  nothing and ends as the first call did, so the directory contents after two calls are
  those after one. No call changes anything that exists already: neither the README nor
  the solution file is overwritten. Where the folder and its ancestors exist as
  directories, creating the folder raises nothing and changes nothing.
\<close>

theorem setup_problem_directory_idempotent:
  "setup_problem_directory now' (fst (setup_problem_directory now fs i s t)) i s t
     = setup_problem_directory now fs i s t \<and>
   (fs p = Some n \<longrightarrow> fst (setup_problem_directory now fs i s t) p = Some n) \<and>
   ((\<forall>d\<in>set (path_prefixes (path_join base_directory (i @ ''.'' @ s))). fs d = Some Dir)
      \<longrightarrow> makedirs fs (path_join base_directory (i @ ''.'' @ s)) = (fs, None))"
proof (intro conjI impI)
  show "setup_problem_directory now' (fst (setup_problem_directory now fs i s t)) i s t
     = setup_problem_directory now fs i s t"
    by (rule setup_problem_directory_again)
  show "fs p = Some n \<Longrightarrow> fst (setup_problem_directory now fs i s t) p = Some n"
    by (rule setup_problem_directory_keeps)
  show "\<forall>d\<in>set (path_prefixes (path_join base_directory (i @ ''.'' @ s))). fs d = Some Dir
      \<Longrightarrow> makedirs fs (path_join base_directory (i @ ''.'' @ s)) = (fs, None)"
    unfolding makedirs_def by (rule ensure_dirs_all)
qed

lemma example_prefixes:
  "path_prefixes (path_join base_directory (''1'' @ ''.'' @ ''two-sum''))
     = [''problemset'', ''problemset/1.two-sum'']"
  by code_simp

theorem setup_problem_directory_idempotent_witness:
  "fst (setup_problem_directory ''04/11/2026 10:00:00 IST''
          [''problemset'' \<mapsto> Dir, ''problemset/1.two-sum'' \<mapsto> Dir,
           ''problemset/1.two-sum/two-sum.py'' \<mapsto> File ''# mine'']
          ''1'' ''two-sum'' ''Two Sum'') ''problemset/1.two-sum/two-sum.py''
     = Some (File ''# mine'') \<and>
   makedirs [''problemset'' \<mapsto> Dir, ''problemset/1.two-sum'' \<mapsto> Dir,
             ''problemset/1.two-sum/two-sum.py'' \<mapsto> File ''# mine'']
      (path_join base_directory (''1'' @ ''.'' @ ''two-sum''))
     = ([''problemset'' \<mapsto> Dir, ''problemset/1.two-sum'' \<mapsto> Dir,
         ''problemset/1.two-sum/two-sum.py'' \<mapsto> File ''# mine''], None)"
proof -
  let ?fs = "[''problemset'' \<mapsto> Dir, ''problemset/1.two-sum'' \<mapsto> Dir,
           ''problemset/1.two-sum/two-sum.py'' \<mapsto> File ''# mine'']"
  have 1: "?fs ''problemset/1.two-sum/two-sum.py'' = Some (File ''# mine'')" by simp
  have 2: "\<forall>d\<in>set (path_prefixes (path_join base_directory (''1'' @ ''.'' @ ''two-sum''))).
             ?fs d = Some Dir"
    by (simp only: example_prefixes) simp
  show ?thesis
    using setup_problem_directory_idempotent
      [of _ _ ?fs "''1''" "''two-sum''" _ "''problemset/1.two-sum/two-sum.py''" "File ''# mine''"]
      1 2
    by blast
qed

lemma example_scaffold:
  "map (fst (setup_problem_directory ''04/11/2026 10:00:00 IST'' Map.empty
               ''1'' ''two-sum'' ''Two Sum''))
     [''problemset'', ''problemset/1.two-sum'', ''problemset/1.two-sum/README.md'',
      ''problemset/1.two-sum/two-sum.py'']
   = [Some Dir, Some Dir, Some (File []),
      Some (File (''# Author: Abhinav Singh <abhinavsingh@duck.com>\<newline>'' @
                  ''# Question: Two Sum\<newline># Solved On: 04/11/2026 10:00:00 IST\<newline>''))]"
  by code_simp

section \<open>Metadata fetcher\<close>

lemma getitem_contains:
  "getitem v key = Inr x \<Longrightarrow> contains key v = Inr True"
  by (cases v) (auto split: option.splits dest: map_of_SomeD intro: rev_image_eqI)

lemma fetch_try_Some:
  "fetch_try r slug = Inr (ms, Some d) \<longleftrightarrow>
   ms = [] \<and>
   (\<exists>data env question. r = Response 200 (Inr data) \<and> getitem data ''data'' = Inr env \<and>
      getitem env ''question'' = Inr question \<and> truthy question \<and>
      question_record question slug = Inr d)"
proof (cases r)
  case (Raised e)
  then show ?thesis by simp
next
  case (Response status body)
  show ?thesis
  proof (cases "status = 200")
    case False
    with Response show ?thesis by auto
  next
    case True
    show ?thesis
    proof (cases body)
      case (Inl e)
      with Response True show ?thesis by simp
    next
      case (Inr data)
      show ?thesis
      proof (cases "getitem data ''data''")
        case (Inl e)
        with Response True Inr show ?thesis
          by (auto split: sum.splits)
      next
        case env: (Inr env)
        then have c: "contains ''data'' data = Inr True" by (rule getitem_contains)
        show ?thesis
        proof (cases "getitem env ''question''")
          case (Inl e)
          with Response True Inr env c show ?thesis by simp
        next
          case q: (Inr question)
          with Response True Inr env c show ?thesis
            by (auto split: sum.splits)
        qed
      qed
    qed
  qed
qed

lemma fetch_problem_data_Some:
  "snd (fetch_problem_data r slug) = Some d \<longleftrightarrow>
   (\<exists>data env question. r = Response 200 (Inr data) \<and> getitem data ''data'' = Inr env \<and>
      getitem env ''question'' = Inr question \<and> truthy question \<and>
      question_record question slug = Inr d)"
proof -
  have "snd (fetch_problem_data r slug) = Some d \<longleftrightarrow> (\<exists>ms. fetch_try r slug = Inr (ms, Some d))"
    by (auto simp: fetch_problem_data_def split: sum.splits)
  then show ?thesis by (simp add: fetch_try_Some)
qed

lemma question_record_Inr:
  "question_record question slug = Inr d \<longleftrightarrow>
   (\<exists>qid title diff tags items names.
      getitem question ''questionFrontendId'' = Inr qid \<and>
      getitem question ''title'' = Inr title \<and>
      getitem question ''difficulty'' = Inr diff \<and>
      getitem question ''topicTags'' = Inr tags \<and>
      elements tags = Inr items \<and> tag_names items = Inr names \<and>
      d = \<lparr>question_id = qid, question_title = title, question_slug = slug,
            difficulty = diff, topic_tags = str_join '', '' names\<rparr>)"
  by (auto simp: question_record_def split: sum.splits)

text \<open>
  C6, as amended. The function has no exceptional result: whatever the body of the
  \<open>try\<close> raises becomes a warning and \<open>None\<close>. It returns \<open>None\<close> when the status is
  not 200, when the transport or the decoding of the body raises, when the body has no
  \<open>data\<close> key, and when the question is null (or any other false value). It returns a
  record exactly when the status is 200, the body is an object whose \<open>data\<close> is an
  object with a true \<open>question\<close>, the question is an object with the four fields, and
  the tags are items whose \<open>name\<close> is a text; the record then holds the id, the title,
  the slug asked for, the difficulty and the names joined by a comma and a space. In
  every other case it returns \<open>None\<close>.
\<close>

theorem fetch_problem_data_results:
  "(status \<noteq> 200 \<longrightarrow>
      fetch_problem_data (Response status body) slug = ([RequestFailed status], None)) \<and>
   fetch_problem_data (Raised e) slug = ([FetchError e], None) \<and>
   fetch_problem_data (Response 200 (Inl e)) slug = ([FetchError e], None) \<and>
   (contains ''data'' data = Inr False \<longrightarrow>
      fetch_problem_data (Response 200 (Inr data)) slug = ([InvalidResponse], None)) \<and>
   (getitem data ''data'' = Inr env \<and> getitem env ''question'' = Inr question \<and>
    \<not> truthy question \<longrightarrow>
      fetch_problem_data (Response 200 (Inr data)) slug = ([InvalidResponse], None)) \<and>
   (snd (fetch_problem_data r slug) = Some d \<longleftrightarrow>
      (\<exists>body env question qid title diff tags items names.
         r = Response 200 (Inr body) \<and> getitem body ''data'' = Inr env \<and>
         getitem env ''question'' = Inr question \<and> truthy question \<and>
         getitem question ''questionFrontendId'' = Inr qid \<and>
         getitem question ''title'' = Inr title \<and>
         getitem question ''difficulty'' = Inr diff \<and>
         getitem question ''topicTags'' = Inr tags \<and>
         elements tags = Inr items \<and> tag_names items = Inr names \<and>
         d = \<lparr>question_id = qid, question_title = title, question_slug = slug,
               difficulty = diff, topic_tags = str_join '', '' names\<rparr>))"
proof (intro conjI impI)
  show "status \<noteq> 200 \<Longrightarrow>
      fetch_problem_data (Response status body) slug = ([RequestFailed status], None)"
    by (simp add: fetch_problem_data_def)
  show "fetch_problem_data (Raised e) slug = ([FetchError e], None)"
    by (simp add: fetch_problem_data_def)
  show "fetch_problem_data (Response 200 (Inl e)) slug = ([FetchError e], None)"
    by (simp add: fetch_problem_data_def)
  show "contains ''data'' data = Inr False \<Longrightarrow>
      fetch_problem_data (Response 200 (Inr data)) slug = ([InvalidResponse], None)"
    by (simp add: fetch_problem_data_def)
next
  assume a: "getitem data ''data'' = Inr env \<and> getitem env ''question'' = Inr question \<and>
    \<not> truthy question"
  then have "contains ''data'' data = Inr True" using getitem_contains by blast
  with a show "fetch_problem_data (Response 200 (Inr data)) slug = ([InvalidResponse], None)"
    by (simp add: fetch_problem_data_def)
next
  show "snd (fetch_problem_data r slug) = Some d \<longleftrightarrow>
      (\<exists>body env question qid title diff tags items names.
         r = Response 200 (Inr body) \<and> getitem body ''data'' = Inr env \<and>
         getitem env ''question'' = Inr question \<and> truthy question \<and>
         getitem question ''questionFrontendId'' = Inr qid \<and>
         getitem question ''title'' = Inr title \<and>
         getitem question ''difficulty'' = Inr diff \<and>
         getitem question ''topicTags'' = Inr tags \<and>
         elements tags = Inr items \<and> tag_names items = Inr names \<and>
         d = \<lparr>question_id = qid, question_title = title, question_slug = slug,
               difficulty = diff, topic_tags = str_join '', '' names\<rparr>)"
    unfolding fetch_problem_data_Some question_record_Inr by blast
qed

lemma example_fetch:
  "fetch_problem_data
     (Response 200 (Inr (JObj [(''data'', JObj [(''question'',
        JObj [(''questionFrontendId'', JStr ''1''), (''title'', JStr ''Two Sum''),
              (''difficulty'', JStr ''Easy''),
              (''topicTags'', JArr [JObj [(''name'', JStr ''Array'')],
                                    JObj [(''name'', JStr ''Hash Table'')]])])])])))
     ''two-sum''
   = ([], Some \<lparr>question_id = JStr ''1'', question_title = JStr ''Two Sum'',
                question_slug = ''two-sum'', difficulty = JStr ''Easy'',
                topic_tags = ''Array, Hash Table''\<rparr>)"
  by code_simp

theorem fetch_problem_data_results_witness:
  "fetch_problem_data (Response 404 (Inl JSONDecodeError)) ''two-sum''
     = ([RequestFailed 404], None) \<and>
   fetch_problem_data (Response 200 (Inr (JObj [(''errors'', JArr [])]))) ''two-sum''
     = ([InvalidResponse], None) \<and>
   fetch_problem_data (Response 200 (Inr (JObj [(''data'', JObj [(''question'', JNull)])])))
     ''two-sum'' = ([InvalidResponse], None) \<and>
   (\<exists>body env question qid title diff tags items names.
      Response 200 (Inr (JObj [(''data'', JObj [(''question'',
        JObj [(''questionFrontendId'', JStr ''1''), (''title'', JStr ''Two Sum''),
              (''difficulty'', JStr ''Easy''),
              (''topicTags'', JArr [JObj [(''name'', JStr ''Array'')],
                                    JObj [(''name'', JStr ''Hash Table'')]])])])]))
        = Response 200 (Inr body) \<and>
      getitem body ''data'' = Inr env \<and>
      getitem env ''question'' = Inr question \<and> truthy question \<and>
      getitem question ''questionFrontendId'' = Inr qid \<and>
      getitem question ''title'' = Inr title \<and>
      getitem question ''difficulty'' = Inr diff \<and>
      getitem question ''topicTags'' = Inr tags \<and>
      elements tags = Inr items \<and> tag_names items = Inr names \<and>
      \<lparr>question_id = JStr ''1'', question_title = JStr ''Two Sum'',
        question_slug = ''two-sum'', difficulty = JStr ''Easy'',
        topic_tags = ''Array, Hash Table''\<rparr>
        = \<lparr>question_id = qid, question_title = title, question_slug = ''two-sum'',
            difficulty = diff, topic_tags = str_join '', '' names\<rparr>)"
proof (intro conjI)
  have "(404::int) \<noteq> 200" by simp
  then show "fetch_problem_data (Response 404 (Inl JSONDecodeError)) ''two-sum''
     = ([RequestFailed 404], None)"
    using fetch_problem_data_results [of 404 "Inl JSONDecodeError" "''two-sum''"] by blast
  have "contains ''data'' (JObj [(''errors'', JArr [])]) = Inr False" by simp
  then show "fetch_problem_data (Response 200 (Inr (JObj [(''errors'', JArr [])]))) ''two-sum''
     = ([InvalidResponse], None)"
    using fetch_problem_data_results [of _ _ "''two-sum''" _ "JObj [(''errors'', JArr [])]"]
    by blast
  have "getitem (JObj [(''data'', JObj [(''question'', JNull)])]) ''data''
          = Inr (JObj [(''question'', JNull)]) \<and>
        getitem (JObj [(''question'', JNull)]) ''question'' = Inr JNull \<and> \<not> truthy JNull"
    by simp
  then show "fetch_problem_data
      (Response 200 (Inr (JObj [(''data'', JObj [(''question'', JNull)])]))) ''two-sum''
        = ([InvalidResponse], None)"
    using fetch_problem_data_results
      [of _ _ "''two-sum''" _ "JObj [(''data'', JObj [(''question'', JNull)])]"
          "JObj [(''question'', JNull)]" JNull]
    by blast
  let ?r = "Response 200 (Inr (JObj [(''data'', JObj [(''question'',
        JObj [(''questionFrontendId'', JStr ''1''), (''title'', JStr ''Two Sum''),
              (''difficulty'', JStr ''Easy''),
              (''topicTags'', JArr [JObj [(''name'', JStr ''Array'')],
                                    JObj [(''name'', JStr ''Hash Table'')]])])])]))"
  let ?d = "\<lparr>question_id = JStr ''1'', question_title = JStr ''Two Sum'',
        question_slug = ''two-sum'', difficulty = JStr ''Easy'',
        topic_tags = ''Array, Hash Table''\<rparr>"
  have "snd (fetch_problem_data ?r ''two-sum'') = Some ?d"
    by (simp only: example_fetch snd_conv)
  then show "\<exists>body env question qid title diff tags items names.
      ?r = Response 200 (Inr body) \<and>
      getitem body ''data'' = Inr env \<and>
      getitem env ''question'' = Inr question \<and> truthy question \<and>
      getitem question ''questionFrontendId'' = Inr qid \<and>
      getitem question ''title'' = Inr title \<and>
      getitem question ''difficulty'' = Inr diff \<and>
      getitem question ''topicTags'' = Inr tags \<and>
      elements tags = Inr items \<and> tag_names items = Inr names \<and>
      ?d = \<lparr>question_id = qid, question_title = title, question_slug = ''two-sum'',
            difficulty = diff, topic_tags = str_join '', '' names\<rparr>"
    using fetch_problem_data_results [of _ _ "''two-sum''" _ _ _ _ ?r ?d] by blast
qed

text \<open>
  C6 as stated fails: the status is 200, the body has the \<open>data\<close> key and a question
  that is not null, the transport raises nothing, and the result is \<open>None\<close>, not a
  record, because iterating the null \<open>topicTags\<close> raises \<open>TypeError\<close> inside the
  \<open>try\<close>.
\<close>

theorem fetch_problem_data_null_tags:
  "fetch_problem_data
     (Response 200 (Inr (JObj [(''data'', JObj [(''question'',
        JObj [(''questionFrontendId'', JStr ''1''), (''title'', JStr ''Two Sum''),
              (''difficulty'', JStr ''Easy''), (''topicTags'', JNull)])])])))
     ''two-sum''
   = ([FetchError TypeError], None)"
  by code_simp

section \<open>Orchestrator\<close>

lemma extract_question_slug_nonempty:
  "extract_question_slug url = Some slug \<Longrightarrow> slug \<noteq> []"
proof -
  have "re_search url = Some slug \<Longrightarrow> slug \<noteq> []"
    by (induction url) (auto simp: slug_at_def Let_def split: option.splits if_splits)
  then show "extract_question_slug url = Some slug \<Longrightarrow> slug \<noteq> []"
    by (simp add: extract_question_slug_def)
qed

text \<open>
  C7. When the extractor finds no slug, \<open>main\<close> prints the prompt and the error and
  returns: the file system is as before and no request has been sent. When the fetcher
  returns no data, \<open>main\<close> has sent the one request, prints the fetcher's warning and
  then the error as the last message, and returns: the file system is as before.
  Neither case raises.
\<close>

theorem main_aborts_without_writes:
  "(extract_question_slug url = None \<longrightarrow>
      main fmt post now url w = (w\<lparr>console := console w @ [Prompt, InvalidUrl]\<rparr>, None) \<and>
      files (fst (main fmt post now url w)) = files w \<and>
      requests (fst (main fmt post now url w)) = requests w) \<and>
   (extract_question_slug url = Some slug \<and> snd (fetch_problem_data (post slug) slug) = None \<longrightarrow>
      main fmt post now url w =
        (w\<lparr>requests := requests w @ [slug],
           console := console w @ [Prompt] @ fst (fetch_problem_data (post slug) slug) @
                      [FetchFailed]\<rparr>, None) \<and>
      files (fst (main fmt post now url w)) = files w)"
proof (intro conjI impI)
  assume "extract_question_slug url = None"
  then show m0: "main fmt post now url w
      = (w\<lparr>console := console w @ [Prompt, InvalidUrl]\<rparr>, None)"
    by (simp add: main_def print_def)
  show "files (fst (main fmt post now url w)) = files w"
    by (simp add: m0)
  show "requests (fst (main fmt post now url w)) = requests w"
    by (simp add: m0)
next
  assume a: "extract_question_slug url = Some slug \<and>
    snd (fetch_problem_data (post slug) slug) = None"
  then have ne: "slug \<noteq> []" using extract_question_slug_nonempty by blast
  obtain ms d where f: "fetch_problem_data (post slug) slug = (ms, d)"
    by (cases "fetch_problem_data (post slug) slug") auto
  with a have d: "d = None" by simp
  show m: "main fmt post now url w =
        (w\<lparr>requests := requests w @ [slug],
           console := console w @ [Prompt] @ fst (fetch_problem_data (post slug) slug) @
                      [FetchFailed]\<rparr>, None)"
    using a ne by (simp add: main_def print_def f d)
  show "files (fst (main fmt post now url w)) = files w"
    by (simp add: m)
qed


lemma example_no_slug: "extract_question_slug ''https://leetcode.com/discuss/general'' = None"
  by code_simp

lemma example_slug:
  "extract_question_slug ''https://leetcode.com/problems/two-sum/'' = Some ''two-sum''"
  by code_simp

theorem main_aborts_without_writes_witness:
  "main (\<lambda>v. []) (\<lambda>slug. Response 404 (Inl JSONDecodeError)) ''04/11/2026 10:00:00 IST''
     ''https://leetcode.com/discuss/general''
     \<lparr>files = Map.empty, console = [], requests = []\<rparr>
   = (\<lparr>files = Map.empty, console = [Prompt, InvalidUrl], requests = []\<rparr>, None) \<and>
   main (\<lambda>v. []) (\<lambda>slug. Response 404 (Inl JSONDecodeError)) ''04/11/2026 10:00:00 IST''
     ''https://leetcode.com/problems/two-sum/''
     \<lparr>files = Map.empty, console = [], requests = []\<rparr>
   = (\<lparr>files = Map.empty, console = [Prompt, RequestFailed 404, FetchFailed],
       requests = [''two-sum'']\<rparr>, None)"
proof
  let ?w = "\<lparr>files = Map.empty, console = [], requests = []\<rparr>"
  let ?post = "\<lambda>slug :: string. Response 404 (Inl JSONDecodeError)"
  show "main (\<lambda>v. []) ?post ''04/11/2026 10:00:00 IST''
     ''https://leetcode.com/discuss/general'' ?w
   = (\<lparr>files = Map.empty, console = [Prompt, InvalidUrl], requests = []\<rparr>, None)"
    using main_aborts_without_writes
      [of "''https://leetcode.com/discuss/general''" "\<lambda>v. []" ?post
          "''04/11/2026 10:00:00 IST''" ?w]
      example_no_slug
    by simp
  have f: "fetch_problem_data (?post ''two-sum'') ''two-sum'' = ([RequestFailed 404], None)"
    by (simp add: fetch_problem_data_def)
  show "main (\<lambda>v. []) ?post ''04/11/2026 10:00:00 IST''
     ''https://leetcode.com/problems/two-sum/'' ?w
   = (\<lparr>files = Map.empty, console = [Prompt, RequestFailed 404, FetchFailed],
       requests = [''two-sum'']\<rparr>, None)"
    using main_aborts_without_writes
      [of "''https://leetcode.com/problems/two-sum/''" "\<lambda>v. []" ?post
          "''04/11/2026 10:00:00 IST''" ?w "''two-sum''"]
      example_slug f
    by simp
qed

end
